theory Spec2Isabelle
  imports Complex_Main "HOL-Library.AList"
begin

section \<open>The order manager of cpapi-app (src/app/manager.py)\<close>

text \<open>
  The theory embeds the class \<open>OrderManager\<close>. Python floats are idealised as
  \<^typ>\<open>real\<close>, so every comparison and sum below is exact. Strings stay strings
  (\<open>"BUY"\<close>, \<open>"SELL"\<close>, \<open>"MKT"\<close>, \<open>"LMT"\<close>), since the code compares them literally and
  treats every other value through its \<open>else\<close> branches. A Python \<open>dict\<close> is an
  association list kept in insertion order (\<open>AList.update\<close> overwrites in place or appends,
  as \<open>d[k] = v\<close> does). Exceptions are values of \<open>error\<close>; a function that can raise
  after it has mutated something returns the error together with the state it leaves.
\<close>

subsection \<open>Data model\<close>

datatype error =
    ValueError          \<comment> \<open>\<open>list.index\<close> of an absent value, \<open>float\<close> of an unparsable string\<close>
  | KeyError            \<comment> \<open>\<open>d[k]\<close> with \<open>k\<close> absent\<close>
  | TypeError           \<comment> \<open>comparison of a float with \<open>None\<close>, \<open>float(None)\<close>\<close>
  | UnboundLocalError   \<comment> \<open>\<open>updated_position\<close> read before assignment\<close>
  | ValidationError     \<comment> \<open>\<open>Portfolio.parse_obj(None)\<close>: the portfolio document does not exist\<close>
  | WriteError          \<comment> \<open>the portfolio store refuses \<open>set\<close>\<close>
  | TransportError      \<comment> \<open>the quote source is unreachable\<close>

text \<open>
  The module \<open>app.models\<close> is not part of the sources; the records below carry the
  fields that manager.py reads and writes. Field names are prefixed because an order and a
  position both have a symbol, a side and a quantity.
\<close>

record order =
  order_id :: string
  order_portfolio_id :: string
  order_symbol :: string
  order_type :: string
  order_side :: string
  order_quantity :: real
  order_limit_price :: "real option"

record position =
  pos_symbol :: string
  pos_quantity :: real
  pos_side :: "string option"
  pos_conid :: int
  pos_value :: real

record portfolio =
  pf_id :: string
  pf_orders :: "order list"
  pf_positions :: "position list"

record contract =
  contract_symbol :: string
  con_id :: int

text \<open>
  A field of a snapshot is whatever the quote source sent. \<open>Numeric r\<close> stands for a value
  that \<open>float\<close> converts to \<open>r\<close>, \<open>NonNumeric\<close> for a string that \<open>float\<close> cannot
  parse (\<open>ValueError\<close>), \<open>PyNone\<close> for a JSON null (\<open>float(None)\<close> is a \<open>TypeError\<close>).
  \<open>snap_conidEx\<close> is the value of \<open>int(snapshot["conidEx"])\<close>; \<open>snap_84\<close> and
  \<open>snap_86\<close> are \<open>None\<close> when the key is absent from the snapshot.
\<close>

datatype fval = Numeric real | NonNumeric | PyNone

record snapshot =
  snap_conidEx :: int
  snap_84 :: "fval option"
  snap_86 :: "fval option"

record price =
  bid :: fval
  ask :: fval

datatype log_event =
    SnapshotFailure error   \<comment> \<open>\<open>logging.error("Error getting market data snapshots: ...")\<close>\<close>
  | InvalidOrderType string \<comment> \<open>\<open>logging.error("Invalid order type: ..., defaulting to MKT")\<close>\<close>

text \<open>
  The state: the three Firestore collections, the three private attributes of the manager,
  the records written by \<open>logging.error\<close> and the number of calls of
  \<open>cancel_market_data_all\<close>. The orders collection is keyed by the order's id.
\<close>

record manager =
  orders_collection :: "order list"
  portfolios_collection :: "(string \<times> portfolio) list"
  contracts_collection :: "contract list"
  orders :: "order list"
  symbol_conid_map :: "(string \<times> int) list"
  symbol_price_map :: "(string \<times> price) list"
  error_log :: "log_event list"
  subs_cancelled :: nat

text \<open>
  What the outside world answers during one cycle: the quote source's reply to
  \<open>market_data_snapshot(conids, FIELDS)\<close> (\<open>Inl\<close> when it raises) and whether the
  portfolio store refuses \<open>set\<close> on a document. Reads of the stores and the deletion of an
  order are taken to succeed.
\<close>

record env =
  market_data_snapshot :: "int list \<Rightarrow> string list \<Rightarrow> error + snapshot list"
  set_fails :: "string \<Rightarrow> bool"

subsection \<open>Loading orders and resolving instruments\<close>

definition update_orders :: "manager \<Rightarrow> manager" where
  "update_orders s = s\<lparr>orders := orders_collection s\<rparr>"

definition map_orders_to_conids :: "manager \<Rightarrow> manager" where
  "map_orders_to_conids s =
     (let s0 = s\<lparr>symbol_conid_map := [], symbol_price_map := []\<rparr> in
      if length (orders s0) = 0 then s0
      else
        let contracts = filter (\<lambda>c. contract_symbol c \<in> set (map order_symbol (orders s0)))
                          (contracts_collection s0)
        in s0\<lparr>symbol_conid_map :=
                 foldl (\<lambda>m c. AList.update (contract_symbol c) (con_id c) m) [] contracts\<rparr>)"

subsection \<open>Quote cache\<close>

definition FIELDS :: "string list" where
  "FIELDS = [''84'', ''86'']"

text \<open>\<open>xs.index(v)\<close>: the first position of \<open>v\<close>, \<open>ValueError\<close> when there is none.\<close>

fun index :: "'a list \<Rightarrow> 'a \<Rightarrow> error + nat" where
  "index [] v = Inl ValueError"
| "index (x # xs) v =
     (if x = v then Inr 0
      else case index xs v of Inl e \<Rightarrow> Inl e | Inr i \<Rightarrow> Inr (Suc i))"

text \<open>
  The body of \<open>for snapshot in snapshots\<close>. The reverse lookup comes first, before the
  test on the fields; when it raises, the entries stored so far stay in the cache.
\<close>

fun store_snapshots ::
  "(string \<times> int) list \<Rightarrow> snapshot list \<Rightarrow> (string \<times> price) list
     \<Rightarrow> error option \<times> (string \<times> price) list" where
  "store_snapshots cm [] pm = (None, pm)"
| "store_snapshots cm (snap # snaps) pm =
     (case index (map snd cm) (snap_conidEx snap) of
        Inl e \<Rightarrow> (Some e, pm)
      | Inr i \<Rightarrow>
          let symbol = map fst cm ! i in
          (case (snap_84 snap, snap_86 snap) of
             (Some b, Some a) \<Rightarrow>
               store_snapshots cm snaps (AList.update symbol \<lparr>bid = b, ask = a\<rparr> pm)
           | _ \<Rightarrow> store_snapshots cm snaps pm))"

definition get_market_data_snapshots :: "env \<Rightarrow> manager \<Rightarrow> error option \<times> manager" where
  "get_market_data_snapshots ev s =
     (let conids = map snd (symbol_conid_map s) in
      if conids = [] then (None, s)
      else
        case market_data_snapshot ev conids FIELDS of
          Inl e \<Rightarrow> (None, s\<lparr>error_log := error_log s @ [SnapshotFailure e]\<rparr>)
        | Inr snapshots \<Rightarrow>
            (case store_snapshots (symbol_conid_map s) snapshots (symbol_price_map s) of
               (r, pm) \<Rightarrow> (r, s\<lparr>symbol_price_map := pm\<rparr>)))"

subsection \<open>Position ledger\<close>

definition update_existing_buy_position :: "position \<Rightarrow> position \<Rightarrow> position" where
  "update_existing_buy_position existing_position new_position =
     (if pos_side new_position = Some ''BUY''
      then existing_position
             \<lparr>pos_quantity := pos_quantity existing_position + pos_quantity new_position,
              pos_value := pos_value existing_position + pos_value new_position\<rparr>
      else existing_position
             \<lparr>pos_quantity := pos_quantity existing_position - pos_quantity new_position,
              pos_value := pos_value existing_position - pos_value new_position\<rparr>)"

definition update_existing_sell_position :: "position \<Rightarrow> position \<Rightarrow> position" where
  "update_existing_sell_position existing_position new_position =
     (if pos_side new_position = Some ''BUY''
      then existing_position
             \<lparr>pos_quantity := pos_quantity existing_position - pos_quantity new_position,
              pos_value := pos_value existing_position - pos_value new_position\<rparr>
      else existing_position
             \<lparr>pos_quantity := pos_quantity existing_position + pos_quantity new_position,
              pos_value := pos_value existing_position + pos_value new_position\<rparr>)"

text \<open>The tail of \<open>__update_existing_position\<close>: the side is set from the sign.\<close>

definition set_side :: "position \<Rightarrow> position" where
  "set_side updated_position =
     (if pos_quantity updated_position < 0 then updated_position\<lparr>pos_side := Some ''SELL''\<rparr>
      else if pos_quantity updated_position > 0 then updated_position\<lparr>pos_side := Some ''BUY''\<rparr>
      else updated_position\<lparr>pos_side := None\<rparr>)"

definition update_existing_position :: "position \<Rightarrow> position \<Rightarrow> error + position" where
  "update_existing_position existing_position new_position =
     (if pos_side existing_position = Some ''BUY''
      then Inr (set_side (update_existing_buy_position existing_position new_position))
      else if pos_side existing_position = Some ''SELL''
      then Inr (set_side (update_existing_sell_position existing_position new_position))
      else Inl UnboundLocalError)"

definition add_new_position :: "position \<Rightarrow> portfolio \<Rightarrow> portfolio" where
  "add_new_position new_position pf = pf\<lparr>pf_positions := pf_positions pf @ [new_position]\<rparr>"

text \<open>
  \<open>__remove_order\<close> deletes the order's document at once and returns the portfolio object
  without the reference; the portfolio is not yet written.
\<close>

definition remove_order :: "manager \<Rightarrow> order \<Rightarrow> portfolio \<Rightarrow> manager \<times> portfolio" where
  "remove_order s ord pf =
     (s\<lparr>orders_collection := filter (\<lambda>x. order_id x \<noteq> order_id ord) (orders_collection s)\<rparr>,
      pf\<lparr>pf_orders := filter (\<lambda>x. order_id x \<noteq> order_id ord) (pf_orders pf)\<rparr>)"

text \<open>
  The position part of \<open>__update_positions\<close>: the first position of the symbol is the
  existing one; it is netted when its side is not \<open>None\<close>, otherwise the fill is appended.
\<close>

definition net_position :: "position \<Rightarrow> portfolio \<Rightarrow> error + portfolio" where
  "net_position new_position pf =
     (case find (\<lambda>p. pos_symbol p = pos_symbol new_position) (pf_positions pf) of
        None \<Rightarrow> Inr (add_new_position new_position pf)
      | Some existing_position \<Rightarrow>
          if pos_side existing_position \<noteq> None then
            (case update_existing_position existing_position new_position of
               Inl e \<Rightarrow> Inl e
             | Inr updated_position \<Rightarrow>
                 Inr (pf\<lparr>pf_positions :=
                           map (\<lambda>p. if pos_symbol p = pos_symbol updated_position
                                    then updated_position else p) (pf_positions pf)\<rparr>))
          else Inr (add_new_position new_position pf))"

definition update_positions :: "env \<Rightarrow> manager \<Rightarrow> position \<Rightarrow> order \<Rightarrow> error option \<times> manager" where
  "update_positions ev s new_position ord =
     (case map_of (portfolios_collection s) (order_portfolio_id ord) of
        None \<Rightarrow> (Some ValidationError, s)
      | Some pf \<Rightarrow>
          (case net_position new_position pf of
             Inl e \<Rightarrow> (Some e, s)
           | Inr pf1 \<Rightarrow>
               (case remove_order s ord pf1 of
                  (s1, pf2) \<Rightarrow>
                    if set_fails ev (order_portfolio_id ord) then (Some WriteError, s1)
                    else (None, s1\<lparr>portfolios_collection :=
                                     AList.update (order_portfolio_id ord) pf2
                                       (portfolios_collection s1)\<rparr>))))"

subsection \<open>Order resolution\<close>

definition py_float :: "fval \<Rightarrow> error + real" where
  "py_float v =
     (case v of Numeric r \<Rightarrow> Inr r | NonNumeric \<Rightarrow> Inl ValueError | PyNone \<Rightarrow> Inl TypeError)"

definition create_position :: "manager \<Rightarrow> order \<Rightarrow> real \<Rightarrow> error + position" where
  "create_position s ord fill_price =
     (case map_of (symbol_conid_map s) (order_symbol ord) of
        None \<Rightarrow> Inl KeyError
      | Some c \<Rightarrow>
          Inr \<lparr>pos_symbol = order_symbol ord,
               pos_quantity = order_quantity ord,
               pos_side = Some (order_side ord),
               pos_conid = c,
               pos_value = order_quantity ord * fill_price\<rparr>)"

definition process_market_order ::
  "env \<Rightarrow> manager \<Rightarrow> order \<Rightarrow> real \<Rightarrow> real \<Rightarrow> error option \<times> manager" where
  "process_market_order ev s ord ask_price bid_price =
     (let fill_price = (if order_side ord = ''BUY'' then ask_price else bid_price) in
      case create_position s ord fill_price of
        Inl e \<Rightarrow> (Some e, s)
      | Inr position \<Rightarrow> update_positions ev s position ord)"

text \<open>
  A limit price of \<open>None\<close> makes the comparison raise; the comparison is reached only when
  the side test before the \<open>and\<close> holds.
\<close>

definition process_limit_order ::
  "env \<Rightarrow> manager \<Rightarrow> order \<Rightarrow> real \<Rightarrow> real \<Rightarrow> error option \<times> manager" where
  "process_limit_order ev s ord ask_price bid_price =
     (if order_side ord = ''BUY'' \<and> order_limit_price ord = None then (Some TypeError, s)
      else if order_side ord = ''BUY'' \<and> ask_price > the (order_limit_price ord) then (None, s)
      else if order_side ord = ''SELL'' \<and> order_limit_price ord = None then (Some TypeError, s)
      else if order_side ord = ''SELL'' \<and> bid_price < the (order_limit_price ord) then (None, s)
      else
        let fill_price = (if order_side ord = ''BUY'' then ask_price else bid_price) in
        case create_position s ord fill_price of
          Inl e \<Rightarrow> (Some e, s)
        | Inr position \<Rightarrow> update_positions ev s position ord)"

definition process_order_single :: "env \<Rightarrow> manager \<Rightarrow> order \<Rightarrow> error option \<times> manager" where
  "process_order_single ev s ord =
     (case map_of (symbol_price_map s) (order_symbol ord) of
        None \<Rightarrow> (Some KeyError, s)
      | Some q \<Rightarrow>
          (case py_float (ask q) of
             Inl e \<Rightarrow> (Some e, s)
           | Inr ask_price \<Rightarrow>
               (case py_float (bid q) of
                  Inl e \<Rightarrow> (Some e, s)
                | Inr bid_price \<Rightarrow>
                    if order_type ord = ''MKT'' then process_market_order ev s ord ask_price bid_price
                    else if order_type ord = ''LMT'' then process_limit_order ev s ord ask_price bid_price
                    else process_market_order ev
                           (s\<lparr>error_log := error_log s @ [InvalidOrderType (order_type ord)]\<rparr>)
                           ord ask_price bid_price)))"

text \<open>The body of \<open>for order in self.__orders\<close>, then the loop; an exception ends the loop.\<close>

definition process_order :: "env \<Rightarrow> manager \<Rightarrow> order \<Rightarrow> error option \<times> manager" where
  "process_order ev s ord =
     (if map_of (symbol_price_map s) (order_symbol ord) = None then (None, s)
      else process_order_single ev s ord)"

fun process_order_list :: "env \<Rightarrow> order list \<Rightarrow> manager \<Rightarrow> error option \<times> manager" where
  "process_order_list ev [] s = (None, s)"
| "process_order_list ev (ord # ords) s =
     (case process_order ev s ord of
        (Some e, s') \<Rightarrow> (Some e, s')
      | (None, s') \<Rightarrow> process_order_list ev ords s')"

definition process_orders :: "env \<Rightarrow> manager \<Rightarrow> error option \<times> manager" where
  "process_orders ev s = process_order_list ev (orders s) s"

subsection \<open>Cycle scheduler\<close>

definition cancel_market_data_subs :: "manager \<Rightarrow> manager" where
  "cancel_market_data_subs s = s\<lparr>subs_cancelled := Suc (subs_cancelled s)\<rparr>"

text \<open>One pass of the body of \<open>while True\<close>, up to \<open>__process_orders\<close>.\<close>

definition cycle :: "env \<Rightarrow> manager \<Rightarrow> error option \<times> manager" where
  "cycle ev s =
     (case get_market_data_snapshots ev (map_orders_to_conids (update_orders s)) of
        (Some e, s') \<Rightarrow> (Some e, s')
      | (None, s') \<Rightarrow> process_orders ev s')"

text \<open>
  \<open>run\<close> loops for ever; the model runs it against a finite list of events, one per
  iteration: the world's answers for a cycle, or the interrupt. \<open>Looping\<close> means that the
  events are used up and the loop is still alive, \<open>Exited\<close> that \<open>KeyboardInterrupt\<close>
  was handled, \<open>Crashed\<close> that another exception left \<open>run\<close>, which has no handler for it.
\<close>

datatype event = Tick env | KeyboardInterrupt

datatype run_result = Looping nat manager | Exited manager | Crashed error manager

definition NUM_REQUESTS_BEFORE_CANCELLING_EXISTING_SUBS :: nat where
  "NUM_REQUESTS_BEFORE_CANCELLING_EXISTING_SUBS = 10"

fun run_loop :: "event list \<Rightarrow> nat \<Rightarrow> manager \<Rightarrow> run_result" where
  "run_loop [] num_requests s = Looping num_requests s"
| "run_loop (KeyboardInterrupt # evs) num_requests s = Exited (cancel_market_data_subs s)"
| "run_loop (Tick ev # evs) num_requests s =
     (case cycle ev s of
        (Some e, s') \<Rightarrow> Crashed e s'
      | (None, s') \<Rightarrow>
          if Suc num_requests = NUM_REQUESTS_BEFORE_CANCELLING_EXISTING_SUBS
          then run_loop evs 0 (cancel_market_data_subs s')
          else run_loop evs (Suc num_requests) s')"

definition run :: "event list \<Rightarrow> manager \<Rightarrow> run_result" where
  "run evs s = run_loop evs 0 s"

subsection \<open>A sequence of fills\<close>

text \<open>
  Fills reach a portfolio one after the other, each through the position part of
  \<open>__update_positions\<close>; the first exception stops the sequence.
\<close>

fun apply_fills :: "position list \<Rightarrow> portfolio \<Rightarrow> error + portfolio" where
  "apply_fills [] pf = Inr pf"
| "apply_fills (f # fs) pf =
     (case net_position f pf of Inl e \<Rightarrow> Inl e | Inr pf' \<Rightarrow> apply_fills fs pf')"

subsection \<open>Netting in floating point\<close>

text \<open>
  The quantities and values of the code are Python floats, and \<open>+=\<close> and \<open>-=\<close> round.
  The functions below are the netting functions once more, with the two operations as
  parameters: \<open>fadd\<close> for the float \<open>+\<close>, \<open>fsub\<close> for the float \<open>-\<close>. Nothing else differs;
  with the exact operations they are the functions above.
\<close>

definition update_existing_buy_position_fl ::
  "(real \<Rightarrow> real \<Rightarrow> real) \<Rightarrow> (real \<Rightarrow> real \<Rightarrow> real) \<Rightarrow> position \<Rightarrow> position \<Rightarrow> position" where
  "update_existing_buy_position_fl fadd fsub existing_position new_position =
     (if pos_side new_position = Some ''BUY''
      then existing_position
             \<lparr>pos_quantity := fadd (pos_quantity existing_position) (pos_quantity new_position),
              pos_value := fadd (pos_value existing_position) (pos_value new_position)\<rparr>
      else existing_position
             \<lparr>pos_quantity := fsub (pos_quantity existing_position) (pos_quantity new_position),
              pos_value := fsub (pos_value existing_position) (pos_value new_position)\<rparr>)"

definition update_existing_sell_position_fl ::
  "(real \<Rightarrow> real \<Rightarrow> real) \<Rightarrow> (real \<Rightarrow> real \<Rightarrow> real) \<Rightarrow> position \<Rightarrow> position \<Rightarrow> position" where
  "update_existing_sell_position_fl fadd fsub existing_position new_position =
     (if pos_side new_position = Some ''BUY''
      then existing_position
             \<lparr>pos_quantity := fsub (pos_quantity existing_position) (pos_quantity new_position),
              pos_value := fsub (pos_value existing_position) (pos_value new_position)\<rparr>
      else existing_position
             \<lparr>pos_quantity := fadd (pos_quantity existing_position) (pos_quantity new_position),
              pos_value := fadd (pos_value existing_position) (pos_value new_position)\<rparr>)"

definition update_existing_position_fl ::
  "(real \<Rightarrow> real \<Rightarrow> real) \<Rightarrow> (real \<Rightarrow> real \<Rightarrow> real) \<Rightarrow> position \<Rightarrow> position
     \<Rightarrow> error + position" where
  "update_existing_position_fl fadd fsub existing_position new_position =
     (if pos_side existing_position = Some ''BUY''
      then Inr (set_side (update_existing_buy_position_fl fadd fsub existing_position new_position))
      else if pos_side existing_position = Some ''SELL''
      then Inr (set_side (update_existing_sell_position_fl fadd fsub existing_position new_position))
      else Inl UnboundLocalError)"

definition net_position_fl ::
  "(real \<Rightarrow> real \<Rightarrow> real) \<Rightarrow> (real \<Rightarrow> real \<Rightarrow> real) \<Rightarrow> position \<Rightarrow> portfolio
     \<Rightarrow> error + portfolio" where
  "net_position_fl fadd fsub new_position pf =
     (case find (\<lambda>p. pos_symbol p = pos_symbol new_position) (pf_positions pf) of
        None \<Rightarrow> Inr (add_new_position new_position pf)
      | Some existing_position \<Rightarrow>
          if pos_side existing_position \<noteq> None then
            (case update_existing_position_fl fadd fsub existing_position new_position of
               Inl e \<Rightarrow> Inl e
             | Inr updated_position \<Rightarrow>
                 Inr (pf\<lparr>pf_positions :=
                           map (\<lambda>p. if pos_symbol p = pos_symbol updated_position
                                    then updated_position else p) (pf_positions pf)\<rparr>))
          else Inr (add_new_position new_position pf))"

subsection \<open>Example data\<close>

text \<open>
  One symbol, \<open>ABC\<close>, with instrument 265598, and one portfolio, \<open>P\<close>. The quote source
  of \<open>ex_env b a\<close> answers every request with bid \<open>b\<close> and ask \<open>a\<close> for that instrument.
\<close>

definition ex_order :: "string \<Rightarrow> string \<Rightarrow> string \<Rightarrow> real \<Rightarrow> real option \<Rightarrow> order" where
  "ex_order ident ty sd qty lp =
     \<lparr>order_id = ident, order_portfolio_id = ''P'', order_symbol = ''ABC'', order_type = ty,
      order_side = sd, order_quantity = qty, order_limit_price = lp\<rparr>"

definition ex_position :: "string option \<Rightarrow> real \<Rightarrow> real \<Rightarrow> position" where
  "ex_position sd qty val =
     \<lparr>pos_symbol = ''ABC'', pos_quantity = qty, pos_side = sd, pos_conid = 265598,
      pos_value = val\<rparr>"

definition ex_portfolio :: "order list \<Rightarrow> position list \<Rightarrow> portfolio" where
  "ex_portfolio ords ps = \<lparr>pf_id = ''P'', pf_orders = ords, pf_positions = ps\<rparr>"

definition ex_manager :: "order list \<Rightarrow> position list \<Rightarrow> manager" where
  "ex_manager ords ps =
     \<lparr>orders_collection = ords,
      portfolios_collection = [(''P'', ex_portfolio ords ps)],
      contracts_collection = [\<lparr>contract_symbol = ''ABC'', con_id = 265598\<rparr>],
      orders = [], symbol_conid_map = [], symbol_price_map = [], error_log = [],
      subs_cancelled = 0\<rparr>"

definition ex_snapshot :: "int \<Rightarrow> fval option \<Rightarrow> fval option \<Rightarrow> snapshot" where
  "ex_snapshot c b a = \<lparr>snap_conidEx = c, snap_84 = b, snap_86 = a\<rparr>"

definition ex_env :: "real \<Rightarrow> real \<Rightarrow> env" where
  "ex_env b a =
     \<lparr>market_data_snapshot =
        (\<lambda>conids fields. Inr [ex_snapshot 265598 (Some (Numeric b)) (Some (Numeric a))]),
      set_fails = (\<lambda>pid. False)\<rparr>"

text \<open>
  The manager as \<open>__process_orders\<close> finds it in such a cycle: orders loaded, ABC resolved
  and quoted.
\<close>

definition ex_ready :: "order list \<Rightarrow> position list \<Rightarrow> real \<Rightarrow> real \<Rightarrow> manager" where
  "ex_ready ords ps b a =
     (ex_manager ords ps)
       \<lparr>orders := ords,
        symbol_conid_map := [(''ABC'', 265598)],
        symbol_price_map := [(''ABC'', \<lparr>bid = Numeric b, ask = Numeric a\<rparr>)]\<rparr>"

text \<open>The same world with a portfolio store that refuses every write.\<close>

definition ex_env_write_fails :: "real \<Rightarrow> real \<Rightarrow> env" where
  "ex_env_write_fails b a = (ex_env b a)\<lparr>set_fails := (\<lambda>pid. True)\<rparr>"

text \<open>A quote source that is unreachable, and one that answers for an unknown instrument.\<close>

definition ex_env_no_quotes :: env where
  "ex_env_no_quotes =
     \<lparr>market_data_snapshot = (\<lambda>conids fields. Inl TransportError),
      set_fails = (\<lambda>pid. False)\<rparr>"

definition ex_env_unknown_conid :: env where
  "ex_env_unknown_conid =
     \<lparr>market_data_snapshot =
        (\<lambda>conids fields. Inr [ex_snapshot 8314 (Some (Numeric 100)) (Some (Numeric 101))]),
      set_fails = (\<lambda>pid. False)\<rparr>"

text \<open>
  A second portfolio, \<open>Q\<close>, with its own order for ABC, and a portfolio store that refuses
  the writes of \<open>Q\<close> only.
\<close>

definition ex_order_q :: order where
  "ex_order_q = (ex_order ''q1'' ''MKT'' ''BUY'' 1 None)\<lparr>order_portfolio_id := ''Q''\<rparr>"

definition ex_manager_pq :: "order list \<Rightarrow> manager" where
  "ex_manager_pq ords =
     (ex_manager ords [])
       \<lparr>portfolios_collection :=
          [(''P'', ex_portfolio (filter (\<lambda>x. order_portfolio_id x = ''P'') ords) []),
           (''Q'', \<lparr>pf_id = ''Q'',
                    pf_orders = filter (\<lambda>x. order_portfolio_id x = ''Q'') ords,
                    pf_positions = []\<rparr>)]\<rparr>"

definition ex_env_q_fails :: "real \<Rightarrow> real \<Rightarrow> env" where
  "ex_env_q_fails b a = (ex_env b a)\<lparr>set_fails := (\<lambda>pid. pid = ''Q'')\<rparr>"

text \<open>A coarse rounding arithmetic, with relative error one hundredth.\<close>

definition ex_fadd :: "real \<Rightarrow> real \<Rightarrow> real" where
  "ex_fadd x y = (x + y) * (101/100)"

definition ex_fsub :: "real \<Rightarrow> real \<Rightarrow> real" where
  "ex_fsub x y = (x - y) * (99/100)"

lemmas ex_defs = ex_order_q_def ex_manager_pq_def ex_env_q_fails_def ex_fadd_def ex_fsub_def
  ex_order_def ex_position_def ex_portfolio_def ex_manager_def ex_snapshot_def
  ex_ready_def  ex_env_def ex_env_write_fails_def ex_env_no_quotes_def ex_env_unknown_conid_def

lemmas engine_defs = cycle_def update_orders_def map_orders_to_conids_def
  get_market_data_snapshots_def process_orders_def process_order_def process_order_single_def
  process_market_order_def process_limit_order_def create_position_def update_positions_def
  net_position_def add_new_position_def remove_order_def py_float_def FIELDS_def
  update_existing_position_def update_existing_buy_position_def
  update_existing_sell_position_def set_side_def

lemmas float_defs = net_position_fl_def update_existing_position_fl_def
  update_existing_buy_position_fl_def update_existing_sell_position_fl_def set_side_def
  add_new_position_def

section \<open>The position ledger\<close>

subsection \<open>Netting\<close>

lemma update_existing_position_net:
  assumes "pos_side e = Some ''BUY'' \<or> pos_side e = Some ''SELL''"
    and "pos_side f = Some ''BUY'' \<or> pos_side f = Some ''SELL''"
  shows "update_existing_position e f =
           Inr (set_side (e\<lparr>pos_quantity := (if pos_side e = pos_side f
                                              then pos_quantity e + pos_quantity f
                                              else pos_quantity e - pos_quantity f),
                              pos_value := (if pos_side e = pos_side f
                                            then pos_value e + pos_value f
                                            else pos_value e - pos_value f)\<rparr>))"
  using assms
  by (elim disjE)
     (simp_all add: update_existing_position_def update_existing_buy_position_def
                    update_existing_sell_position_def)

lemma set_side_fields:
  "pos_quantity (set_side p) = pos_quantity p"
  "pos_value (set_side p) = pos_value p"
  "pos_symbol (set_side p) = pos_symbol p"
  "pos_conid (set_side p) = pos_conid p"
  "pos_side (set_side p) =
     (if pos_quantity p > 0 then Some ''BUY''
      else if pos_quantity p < 0 then Some ''SELL'' else None)"
  by (simp_all add: set_side_def)

lemma netted_position:
  assumes es: "pos_side e = Some ''BUY'' \<or> pos_side e = Some ''SELL''"
    and fs: "pos_side f = Some ''BUY'' \<or> pos_side f = Some ''SELL''"
  shows "\<exists>u. update_existing_position e f = Inr u
           \<and> pos_quantity u = (if pos_side e = pos_side f
                               then pos_quantity e + pos_quantity f
                               else pos_quantity e - pos_quantity f)
           \<and> pos_value u = (if pos_side e = pos_side f
                            then pos_value e + pos_value f
                            else pos_value e - pos_value f)
           \<and> pos_side u = (if pos_quantity u > 0 then Some ''BUY''
                           else if pos_quantity u < 0 then Some ''SELL'' else None)
           \<and> pos_symbol u = pos_symbol e \<and> pos_conid u = pos_conid e"
proof -
  define u where "u = set_side (e\<lparr>pos_quantity := (if pos_side e = pos_side f
                                              then pos_quantity e + pos_quantity f
                                              else pos_quantity e - pos_quantity f),
                              pos_value := (if pos_side e = pos_side f
                                            then pos_value e + pos_value f
                                            else pos_value e - pos_value f)\<rparr>)"
  have u: "update_existing_position e f = Inr u"
    unfolding u_def by (rule update_existing_position_net [OF es fs])
  have q: "pos_quantity u = (if pos_side e = pos_side f
                               then pos_quantity e + pos_quantity f
                               else pos_quantity e - pos_quantity f)"
    unfolding u_def by (simp add: set_side_fields)
  have v: "pos_value u = (if pos_side e = pos_side f
                            then pos_value e + pos_value f
                            else pos_value e - pos_value f)"
    unfolding u_def by (simp add: set_side_fields)
  have sd: "pos_side u = (if pos_quantity u > 0 then Some ''BUY''
                           else if pos_quantity u < 0 then Some ''SELL'' else None)"
    unfolding u_def by (simp only: set_side_fields)
  have sy: "pos_symbol u = pos_symbol e" and co: "pos_conid u = pos_conid e"
    unfolding u_def by (simp_all add: set_side_fields)
  show ?thesis
    by (rule exI [of _ u]) (intro conjI u q v sd sy co)
qed

lemma net_position_existing:
  assumes ex: "find (\<lambda>p. pos_symbol p = pos_symbol f) (pf_positions pf) = Some e"
    and side: "pos_side e \<noteq> None"
    and u: "update_existing_position e f = Inr u"
  shows "net_position f pf =
           Inr (pf\<lparr>pf_positions :=
                    map (\<lambda>p. if pos_symbol p = pos_symbol u then u else p)
                      (pf_positions pf)\<rparr>)"
  unfolding net_position_def using ex side u by simp

text \<open>
  Claim C2. When the first position of the fill's symbol has side BUY or SELL, the fill
  is netted into it by the four-case rule: quantity and value are added when the
  existing side and the fill's side agree (BUY on BUY, SELL on SELL) and subtracted when
  they differ (SELL on BUY, BUY on SELL). The side is then set from the sign of the new
  quantity: BUY above zero, SELL below, none at zero. The entry stays in the portfolio,
  in its place, whatever the new quantity is, so a position netted to zero is kept with
  side none and with whatever value the subtraction left.
\<close>

theorem netting_rule:
  assumes ex: "find (\<lambda>p. pos_symbol p = pos_symbol f) (pf_positions pf) = Some e"
    and es: "pos_side e = Some ''BUY'' \<or> pos_side e = Some ''SELL''"
    and fs: "pos_side f = Some ''BUY'' \<or> pos_side f = Some ''SELL''"
  shows "\<exists>u. update_existing_position e f = Inr u
           \<and> pos_quantity u = (if pos_side e = pos_side f
                               then pos_quantity e + pos_quantity f
                               else pos_quantity e - pos_quantity f)
           \<and> pos_value u = (if pos_side e = pos_side f
                            then pos_value e + pos_value f
                            else pos_value e - pos_value f)
           \<and> pos_side u = (if pos_quantity u > 0 then Some ''BUY''
                           else if pos_quantity u < 0 then Some ''SELL'' else None)
           \<and> pos_symbol u = pos_symbol e \<and> pos_conid u = pos_conid e
           \<and> net_position f pf =
               Inr (pf\<lparr>pf_positions :=
                        map (\<lambda>p. if pos_symbol p = pos_symbol e then u else p)
                          (pf_positions pf)\<rparr>)"
proof -
  from netted_position [OF es fs] obtain u where
    u: "update_existing_position e f = Inr u"
    and q: "pos_quantity u = (if pos_side e = pos_side f
                               then pos_quantity e + pos_quantity f
                               else pos_quantity e - pos_quantity f)"
    and v: "pos_value u = (if pos_side e = pos_side f
                            then pos_value e + pos_value f
                            else pos_value e - pos_value f)"
    and sd: "pos_side u = (if pos_quantity u > 0 then Some ''BUY''
                           else if pos_quantity u < 0 then Some ''SELL'' else None)"
    and sy: "pos_symbol u = pos_symbol e" and co: "pos_conid u = pos_conid e"
    by blast
  have side: "pos_side e \<noteq> None" using es by auto
  have net: "net_position f pf =
               Inr (pf\<lparr>pf_positions :=
                        map (\<lambda>p. if pos_symbol p = pos_symbol e then u else p)
                          (pf_positions pf)\<rparr>)"
    using net_position_existing [OF ex side u] by (simp add: sy)
  show ?thesis
    by (rule exI [of _ u]) (intro conjI u q v sd sy co net)
qed

lemma find_map_replace:
  "x \<in> set xs \<Longrightarrow> g x = k \<Longrightarrow> g m = k \<Longrightarrow>
   find (\<lambda>p. g p = k) (map (\<lambda>p. if g p = k then m else p) xs) = Some m"
  by (induction xs) auto

lemma map_replace_twice:
  "g m = k \<Longrightarrow>
   map (\<lambda>p. if g p = k then e else p) (map (\<lambda>p. if g p = k then m else p) xs)
     = map (\<lambda>p. if g p = k then e else p) xs"
  by (induction xs) auto

lemma find_SomeD: "find P xs = Some x \<Longrightarrow> x \<in> set xs \<and> P x"
  by (induction xs) (auto split: if_splits)

text \<open>
  The rule at the third example of the specification: a long position of 4 with value 38
  meets a SELL fill of 4 with value 40. The entry stays, with quantity 0, side none and
  value -2.
\<close>

theorem netting_rule_witness:
  "find (\<lambda>p. pos_symbol p = pos_symbol (ex_position (Some ''SELL'') 4 40))
        (pf_positions (ex_portfolio [] [ex_position (Some ''BUY'') 4 38]))
     = Some (ex_position (Some ''BUY'') 4 38)
   \<and> update_existing_position (ex_position (Some ''BUY'') 4 38) (ex_position (Some ''SELL'') 4 40)
     = Inr (ex_position None 0 (- 2))
   \<and> net_position (ex_position (Some ''SELL'') 4 40) (ex_portfolio [] [ex_position (Some ''BUY'') 4 38])
     = Inr (ex_portfolio [] [ex_position None 0 (- 2)])"
proof -
  let ?e = "ex_position (Some ''BUY'') 4 38"
  let ?f = "ex_position (Some ''SELL'') 4 40"
  let ?pf = "ex_portfolio [] [?e]"
  have h1: "find (\<lambda>p. pos_symbol p = pos_symbol ?f) (pf_positions ?pf) = Some ?e"
    by (simp add: ex_defs)
  have h2: "pos_side ?e = Some ''BUY'' \<or> pos_side ?e = Some ''SELL''"
    by (simp add: ex_defs)
  have h3: "pos_side ?f = Some ''BUY'' \<or> pos_side ?f = Some ''SELL''"
    by (simp add: ex_defs)
  from netting_rule [OF h1 h2 h3] obtain u where
    u: "update_existing_position ?e ?f = Inr u"
    and n: "net_position ?f ?pf =
              Inr (?pf\<lparr>pf_positions :=
                         map (\<lambda>p. if pos_symbol p = pos_symbol ?e then u else p)
                           (pf_positions ?pf)\<rparr>)"
    by blast
  have v: "update_existing_position ?e ?f = Inr (ex_position None 0 (- 2))"
    by (simp add: ex_defs engine_defs)
  with u have "u = ex_position None 0 (- 2)" by simp
  with n have "net_position ?f ?pf = Inr (ex_portfolio [] [ex_position None 0 (- 2)])"
    by (simp add: ex_defs)
  with h1 v show ?thesis by simp
qed

subsection \<open>The round trip in floating point\<close>

text \<open>With exact operations the parametrised netting is the netting of the sections above.\<close>

lemma update_existing_position_fl_exact:
  "update_existing_position_fl (+) (-) e f = update_existing_position e f"
  by (simp add: update_existing_position_fl_def
                update_existing_position_def update_existing_buy_position_fl_def
                update_existing_buy_position_def update_existing_sell_position_fl_def
                update_existing_sell_position_def)

lemma net_position_fl_exact: "net_position_fl (+) (-) f pf = net_position f pf"
  by (cases "find (\<lambda>p. pos_symbol p = pos_symbol f) (pf_positions pf)")
     (simp_all add: net_position_fl_def net_position_def update_existing_position_fl_exact)

text \<open>
  The rounding of one operation is bounded by a relative error \<open>u\<close>; adding and then
  subtracting the same number, or the reverse, comes back within \<open>u (2 + u) (|x| + |y|)\<close>.
\<close>

lemma round_trip_bound:
  fixes u x y a d :: real
  assumes u0: "0 \<le> u"
    and first: "\<bar>a - (x + y)\<bar> \<le> u * \<bar>x + y\<bar>"
    and second: "\<bar>d - (a - y)\<bar> \<le> u * \<bar>a - y\<bar>"
  shows "\<bar>d - x\<bar> \<le> u * (2 + u) * (\<bar>x\<bar> + \<bar>y\<bar>)"
proof -
  have t: "\<bar>x + y\<bar> \<le> \<bar>x\<bar> + \<bar>y\<bar>" by (rule abs_triangle_ineq)
  have e1: "a - y - x = a - (x + y)" by simp
  have b1: "\<bar>a - y - x\<bar> \<le> u * \<bar>x + y\<bar>" unfolding e1 by (rule first)
  have "\<bar>a - y\<bar> \<le> \<bar>a - y - x\<bar> + \<bar>x\<bar>"
    using abs_triangle_ineq [of "a - y - x" x] by simp
  with b1 have b2: "\<bar>a - y\<bar> \<le> \<bar>x\<bar> + u * \<bar>x + y\<bar>" by linarith
  have b3: "u * \<bar>a - y\<bar> \<le> u * (\<bar>x\<bar> + u * \<bar>x + y\<bar>)"
    by (rule mult_left_mono [OF b2 u0])
  have "\<bar>d - x\<bar> \<le> \<bar>d - (a - y)\<bar> + \<bar>a - y - x\<bar>"
    using abs_triangle_ineq [of "d - (a - y)" "a - y - x"] by simp
  with second b3 b1 have b4: "\<bar>d - x\<bar> \<le> u * (\<bar>x\<bar> + u * \<bar>x + y\<bar>) + u * \<bar>x + y\<bar>"
    by linarith
  have c1: "u * \<bar>x + y\<bar> \<le> u * (\<bar>x\<bar> + \<bar>y\<bar>)" by (rule mult_left_mono [OF t u0])
  have c2: "u * (u * \<bar>x + y\<bar>) \<le> u * (u * (\<bar>x\<bar> + \<bar>y\<bar>))" by (rule mult_left_mono [OF c1 u0])
  have c3: "u * \<bar>x\<bar> \<le> u * (\<bar>x\<bar> + \<bar>y\<bar>)" by (rule mult_left_mono [OF _ u0]) simp
  have "u * (\<bar>x\<bar> + u * \<bar>x + y\<bar>) + u * \<bar>x + y\<bar>
          = u * \<bar>x\<bar> + u * (u * \<bar>x + y\<bar>) + u * \<bar>x + y\<bar>"
    by (simp add: algebra_simps)
  also have "\<dots> \<le> u * (\<bar>x\<bar> + \<bar>y\<bar>) + u * (u * (\<bar>x\<bar> + \<bar>y\<bar>)) + u * (\<bar>x\<bar> + \<bar>y\<bar>)"
    using c1 c2 c3 by linarith
  also have "\<dots> = u * (2 + u) * (\<bar>x\<bar> + \<bar>y\<bar>)" by (simp add: algebra_simps)
  finally show ?thesis using b4 by linarith
qed

lemma round_trip_add_sub:
  fixes u x y :: real
  assumes u0: "0 \<le> u"
    and radd: "\<forall>x y. \<bar>fadd x y - (x + y)\<bar> \<le> u * \<bar>x + y\<bar>"
    and rsub: "\<forall>x y. \<bar>fsub x y - (x - y)\<bar> \<le> u * \<bar>x - y\<bar>"
  shows "\<bar>fsub (fadd x y) y - x\<bar> \<le> u * (2 + u) * (\<bar>x\<bar> + \<bar>y\<bar>)"
  by (rule round_trip_bound [OF u0 radd [rule_format] rsub [rule_format]])

lemma round_trip_sub_add:
  fixes u x y :: real
  assumes u0: "0 \<le> u"
    and radd: "\<forall>x y. \<bar>fadd x y - (x + y)\<bar> \<le> u * \<bar>x + y\<bar>"
    and rsub: "\<forall>x y. \<bar>fsub x y - (x - y)\<bar> \<le> u * \<bar>x - y\<bar>"
  shows "\<bar>fadd (fsub x y) y - x\<bar> \<le> u * (2 + u) * (\<bar>x\<bar> + \<bar>y\<bar>)"
proof -
  have a: "\<bar>fsub x y - (x + - y)\<bar> \<le> u * \<bar>x + - y\<bar>"
    using rsub [rule_format, of x y] by simp
  have b: "\<bar>fadd (fsub x y) y - (fsub x y - - y)\<bar> \<le> u * \<bar>fsub x y - - y\<bar>"
    using radd [rule_format, of "fsub x y" y] by simp
  from round_trip_bound [OF u0 a b] show ?thesis by simp
qed

lemma rounded_sum_positive:
  fixes u x :: real
  assumes "u < 1" and "0 < x" and "\<bar>a - x\<bar> \<le> u * \<bar>x\<bar>"
  shows "0 < a"
proof -
  from assms have "x - a \<le> u * x" by (simp add: abs_le_iff)
  then have "(1 - u) * x \<le> a" by (simp add: algebra_simps)
  moreover from assms have "0 < (1 - u) * x" by simp
  ultimately show ?thesis by linarith
qed

lemma rounded_sum_negative:
  fixes u x :: real
  assumes "u < 1" and "x < 0" and "\<bar>a - x\<bar> \<le> u * \<bar>x\<bar>"
  shows "a < 0"
proof -
  from assms have "a - x \<le> u * (- x)" by (simp add: abs_le_iff)
  then have "a \<le> (1 - u) * x" by (simp add: algebra_simps)
  moreover from assms have "(1 - u) * x < 0" by (simp add: mult_pos_neg)
  ultimately show ?thesis by linarith
qed

lemma net_position_fl_existing:
  assumes ex: "find (\<lambda>p. pos_symbol p = pos_symbol f) (pf_positions pf) = Some e"
    and side: "pos_side e \<noteq> None"
    and u: "update_existing_position_fl fadd fsub e f = Inr w"
  shows "net_position_fl fadd fsub f pf =
           Inr (pf\<lparr>pf_positions :=
                    map (\<lambda>p. if pos_symbol p = pos_symbol w then w else p)
                      (pf_positions pf)\<rparr>)"
  unfolding net_position_fl_def using ex side u by simp

lemma two_nets:
  assumes ex: "find (\<lambda>p. pos_symbol p = pos_symbol fb) (pf_positions pf) = Some e"
    and eside: "pos_side e \<noteq> None"
    and m: "update_existing_position_fl fadd fsub e fb = Inr m"
    and msy: "pos_symbol m = pos_symbol e"
    and mside: "pos_side m \<noteq> None"
    and syms: "pos_symbol fs = pos_symbol fb"
    and w: "update_existing_position_fl fadd fsub m fs = Inr w"
    and wsy: "pos_symbol w = pos_symbol e"
  shows "\<exists>pf1 pf2. net_position_fl fadd fsub fb pf = Inr pf1
           \<and> net_position_fl fadd fsub fs pf1 = Inr pf2
           \<and> find (\<lambda>p. pos_symbol p = pos_symbol fb) (pf_positions pf2) = Some w"
proof -
  from find_SomeD [OF ex] have ein: "e \<in> set (pf_positions pf)"
    and symb: "pos_symbol fb = pos_symbol e" by simp_all
  define pf1 where "pf1 = pf\<lparr>pf_positions :=
                        map (\<lambda>p. if pos_symbol p = pos_symbol e then m else p)
                          (pf_positions pf)\<rparr>"
  define pf2 where "pf2 = pf\<lparr>pf_positions :=
                        map (\<lambda>p. if pos_symbol p = pos_symbol e then w else p)
                          (pf_positions pf)\<rparr>"
  have n1: "net_position_fl fadd fsub fb pf = Inr pf1"
    unfolding pf1_def using net_position_fl_existing [OF ex eside m] by (simp add: msy)
  have f2: "find (\<lambda>p. pos_symbol p = pos_symbol fs) (pf_positions pf1) = Some m"
    unfolding pf1_def syms symb
    using find_map_replace [of e "pf_positions pf" pos_symbol "pos_symbol e" m, OF ein refl msy]
    by simp
  have mm: "map (\<lambda>p. if pos_symbol p = pos_symbol e then w else p)
                (map (\<lambda>p. if pos_symbol p = pos_symbol e then m else p) (pf_positions pf))
            = map (\<lambda>p. if pos_symbol p = pos_symbol e then w else p) (pf_positions pf)"
    by (rule map_replace_twice [of pos_symbol m "pos_symbol e" w, OF msy])
  have n2: "net_position_fl fadd fsub fs pf1 = Inr pf2"
    using net_position_fl_existing [OF f2 mside w]
    unfolding pf1_def pf2_def
    by (simp add: wsy mm del: map_map)
  have f3: "find (\<lambda>p. pos_symbol p = pos_symbol fb) (pf_positions pf2) = Some w"
    unfolding pf2_def symb
    using find_map_replace [of e "pf_positions pf" pos_symbol "pos_symbol e" w, OF ein refl wsy]
    by simp
  from n1 n2 f3 show ?thesis by blast
qed


text \<open>
  Claim C7, as amended. The float operations \<open>fadd\<close> and \<open>fsub\<close> return the exact result
  within a relative error \<open>u < 1\<close>, as Python's \<open>+\<close> and \<open>-\<close> do with \<open>u\<close> equal to two
  to the power -53 as long as they do not overflow. Take the position that the ledger finds for a symbol, with a side
  that agrees with the sign of its quantity (BUY and positive, or SELL and negative). A
  BUY fill of a positive quantity \<open>Q\<close> and value \<open>V\<close> followed by a SELL fill of the same
  quantity and the same value, both for that symbol, are both netted, and the position
  found for the symbol afterwards has the quantity and the value it had before within the
  tolerances \<open>u (2 + u) (|quantity| + Q)\<close> and \<open>u (2 + u) (|value| + |V|)\<close>, exactly so when
  the operations are exact, with the same symbol and instrument.
\<close>

theorem netting_round_trip:
  fixes u :: real
  assumes u0: "0 \<le> u" and u1: "u < 1"
    and radd: "\<forall>x y. \<bar>fadd x y - (x + y)\<bar> \<le> u * \<bar>x + y\<bar>"
    and rsub: "\<forall>x y. \<bar>fsub x y - (x - y)\<bar> \<le> u * \<bar>x - y\<bar>"
    and ex: "find (\<lambda>p. pos_symbol p = pos_symbol fb) (pf_positions pf) = Some e"
    and sign: "pos_side e = Some ''BUY'' \<and> 0 < pos_quantity e
               \<or> pos_side e = Some ''SELL'' \<and> pos_quantity e < 0"
    and syms: "pos_symbol fs = pos_symbol fb"
    and sideb: "pos_side fb = Some ''BUY''" and sides: "pos_side fs = Some ''SELL''"
    and qpos: "0 < pos_quantity fb"
    and qeq: "pos_quantity fs = pos_quantity fb"
    and veq: "pos_value fs = pos_value fb"
  shows "\<exists>pf1 pf2 e'.
           net_position_fl fadd fsub fb pf = Inr pf1
           \<and> net_position_fl fadd fsub fs pf1 = Inr pf2
           \<and> find (\<lambda>p. pos_symbol p = pos_symbol fb) (pf_positions pf2) = Some e'
           \<and> \<bar>pos_quantity e' - pos_quantity e\<bar>
                \<le> u * (2 + u) * (\<bar>pos_quantity e\<bar> + \<bar>pos_quantity fb\<bar>)
           \<and> \<bar>pos_value e' - pos_value e\<bar>
                \<le> u * (2 + u) * (\<bar>pos_value e\<bar> + \<bar>pos_value fb\<bar>)
           \<and> pos_symbol e' = pos_symbol e \<and> pos_conid e' = pos_conid e"
  using sign
proof
  assume a: "pos_side e = Some ''BUY'' \<and> 0 < pos_quantity e"
  then have eb: "pos_side e = Some ''BUY''" and eq: "0 < pos_quantity e" by simp_all
  define m where "m = set_side (e\<lparr>pos_quantity := fadd (pos_quantity e) (pos_quantity fb),
                                  pos_value := fadd (pos_value e) (pos_value fb)\<rparr>)"
  have m: "update_existing_position_fl fadd fsub e fb = Inr m"
    by (simp add: update_existing_position_fl_def update_existing_buy_position_fl_def
                  eb sideb m_def)
  have mq: "pos_quantity m = fadd (pos_quantity e) (pos_quantity fb)"
    and mv: "pos_value m = fadd (pos_value e) (pos_value fb)"
    and msy: "pos_symbol m = pos_symbol e" and mc: "pos_conid m = pos_conid e"
    unfolding m_def by (simp_all add: set_side_fields)
  have "0 < fadd (pos_quantity e) (pos_quantity fb)"
  proof (rule rounded_sum_positive [OF u1])
    show "0 < pos_quantity e + pos_quantity fb" using eq qpos by simp
    show "\<bar>fadd (pos_quantity e) (pos_quantity fb) - (pos_quantity e + pos_quantity fb)\<bar>
            \<le> u * \<bar>pos_quantity e + pos_quantity fb\<bar>"
      by (rule radd [rule_format])
  qed
  then have mb: "pos_side m = Some ''BUY''"
    unfolding m_def by (simp add: set_side_fields)
  define w where "w = set_side (m\<lparr>pos_quantity := fsub (pos_quantity m) (pos_quantity fs),
                                  pos_value := fsub (pos_value m) (pos_value fs)\<rparr>)"
  have w: "update_existing_position_fl fadd fsub m fs = Inr w"
    by (simp add: update_existing_position_fl_def update_existing_buy_position_fl_def
                  mb sides w_def)
  have wq: "pos_quantity w = fsub (fadd (pos_quantity e) (pos_quantity fb)) (pos_quantity fb)"
    and wv: "pos_value w = fsub (fadd (pos_value e) (pos_value fb)) (pos_value fb)"
    and wsy: "pos_symbol w = pos_symbol e" and wc: "pos_conid w = pos_conid e"
    unfolding w_def by (simp_all add: set_side_fields mq mv msy mc qeq veq)
  have bq: "\<bar>pos_quantity w - pos_quantity e\<bar>
              \<le> u * (2 + u) * (\<bar>pos_quantity e\<bar> + \<bar>pos_quantity fb\<bar>)"
    unfolding wq by (rule round_trip_add_sub [OF u0 radd rsub])
  have bv: "\<bar>pos_value w - pos_value e\<bar>
              \<le> u * (2 + u) * (\<bar>pos_value e\<bar> + \<bar>pos_value fb\<bar>)"
    unfolding wv by (rule round_trip_add_sub [OF u0 radd rsub])
  have es: "pos_side e \<noteq> None" and ms: "pos_side m \<noteq> None" using eb mb by simp_all
  from two_nets [OF ex es m msy ms syms w wsy] obtain pf1 pf2 where
    "net_position_fl fadd fsub fb pf = Inr pf1"
    "net_position_fl fadd fsub fs pf1 = Inr pf2"
    "find (\<lambda>p. pos_symbol p = pos_symbol fb) (pf_positions pf2) = Some w"
    by blast
  with bq bv wsy wc show ?thesis by blast
next
  assume a: "pos_side e = Some ''SELL'' \<and> pos_quantity e < 0"
  then have eb: "pos_side e = Some ''SELL''" and eq: "pos_quantity e < 0" by simp_all
  define m where "m = set_side (e\<lparr>pos_quantity := fsub (pos_quantity e) (pos_quantity fb),
                                  pos_value := fsub (pos_value e) (pos_value fb)\<rparr>)"
  have m: "update_existing_position_fl fadd fsub e fb = Inr m"
    by (simp add: update_existing_position_fl_def update_existing_sell_position_fl_def
                  eb sideb m_def)
  have mq: "pos_quantity m = fsub (pos_quantity e) (pos_quantity fb)"
    and mv: "pos_value m = fsub (pos_value e) (pos_value fb)"
    and msy: "pos_symbol m = pos_symbol e" and mc: "pos_conid m = pos_conid e"
    unfolding m_def by (simp_all add: set_side_fields)
  have neg: "fsub (pos_quantity e) (pos_quantity fb) < 0"
  proof (rule rounded_sum_negative [OF u1])
    show "pos_quantity e - pos_quantity fb < 0" using eq qpos by simp
    show "\<bar>fsub (pos_quantity e) (pos_quantity fb) - (pos_quantity e - pos_quantity fb)\<bar>
            \<le> u * \<bar>pos_quantity e - pos_quantity fb\<bar>"
      by (rule rsub [rule_format])
  qed
  then have mb: "pos_side m = Some ''SELL''"
    unfolding m_def by (simp add: set_side_fields)
  define w where "w = set_side (m\<lparr>pos_quantity := fadd (pos_quantity m) (pos_quantity fs),
                                  pos_value := fadd (pos_value m) (pos_value fs)\<rparr>)"
  have w: "update_existing_position_fl fadd fsub m fs = Inr w"
    by (simp add: update_existing_position_fl_def update_existing_sell_position_fl_def
                  mb sides w_def)
  have wq: "pos_quantity w = fadd (fsub (pos_quantity e) (pos_quantity fb)) (pos_quantity fb)"
    and wv: "pos_value w = fadd (fsub (pos_value e) (pos_value fb)) (pos_value fb)"
    and wsy: "pos_symbol w = pos_symbol e" and wc: "pos_conid w = pos_conid e"
    unfolding w_def by (simp_all add: set_side_fields mq mv msy mc qeq veq)
  have bq: "\<bar>pos_quantity w - pos_quantity e\<bar>
              \<le> u * (2 + u) * (\<bar>pos_quantity e\<bar> + \<bar>pos_quantity fb\<bar>)"
    unfolding wq by (rule round_trip_sub_add [OF u0 radd rsub])
  have bv: "\<bar>pos_value w - pos_value e\<bar>
              \<le> u * (2 + u) * (\<bar>pos_value e\<bar> + \<bar>pos_value fb\<bar>)"
    unfolding wv by (rule round_trip_sub_add [OF u0 radd rsub])
  have es: "pos_side e \<noteq> None" and ms: "pos_side m \<noteq> None" using eb mb by simp_all
  from two_nets [OF ex es m msy ms syms w wsy] obtain pf1 pf2 where
    "net_position_fl fadd fsub fb pf = Inr pf1"
    "net_position_fl fadd fsub fs pf1 = Inr pf2"
    "find (\<lambda>p. pos_symbol p = pos_symbol fb) (pf_positions pf2) = Some w"
    by blast
  with bq bv wsy wc show ?thesis by blast
qed

text \<open>
  Claim C7 as it is written fails twice. Bought at 10 and sold at 9.5, four shares leave
  the value of a long position of 10 at 102 instead of 100: the value is a running total
  of fill values. And a position stored with side SELL and the positive quantity 10, as
  the first SELL fill of a symbol creates it, comes back as a long position of 2. All the
  numbers are small integers, on which the float operations are exact.
\<close>

theorem round_trip_counterexample:
  "apply_fills [ex_position (Some ''BUY'') 4 40, ex_position (Some ''SELL'') 4 38]
               (ex_portfolio [] [ex_position (Some ''BUY'') 10 100])
     = Inr (ex_portfolio [] [ex_position (Some ''BUY'') 10 102])
   \<and> apply_fills [ex_position (Some ''BUY'') 4 40, ex_position (Some ''SELL'') 4 40]
               (ex_portfolio [] [ex_position (Some ''SELL'') 10 100])
     = Inr (ex_portfolio [] [ex_position (Some ''BUY'') 2 20])
   \<and> ex_portfolio [] [ex_position (Some ''BUY'') 10 102]
       \<noteq> ex_portfolio [] [ex_position (Some ''BUY'') 10 100]
   \<and> ex_portfolio [] [ex_position (Some ''BUY'') 2 20]
       \<noteq> ex_portfolio [] [ex_position (Some ''SELL'') 10 100]"
  by (simp add: ex_defs engine_defs)

text \<open>
  The round trip on a long position of 10 with fills of 4 at the price 10: exact with
  exact operations, and within the tolerance with the coarse arithmetic of the examples.
\<close>

theorem netting_round_trip_witness:
  "net_position_fl (+) (-) (ex_position (Some ''BUY'') 4 40)
       (ex_portfolio [] [ex_position (Some ''BUY'') 10 100])
     = Inr (ex_portfolio [] [ex_position (Some ''BUY'') 14 140])
   \<and> net_position_fl (+) (-) (ex_position (Some ''SELL'') 4 40)
       (ex_portfolio [] [ex_position (Some ''BUY'') 14 140])
     = Inr (ex_portfolio [] [ex_position (Some ''BUY'') 10 100])
   \<and> net_position_fl ex_fadd ex_fsub (ex_position (Some ''BUY'') 4 40)
       (ex_portfolio [] [ex_position (Some ''BUY'') 10 100])
     = Inr (ex_portfolio [] [ex_position (Some ''BUY'') (707/50) (707/5)])
   \<and> net_position_fl ex_fadd ex_fsub (ex_position (Some ''SELL'') 4 40)
       (ex_portfolio [] [ex_position (Some ''BUY'') (707/50) (707/5)])
     = Inr (ex_portfolio [] [ex_position (Some ''BUY'') (50193/5000) (50193/500)])
   \<and> \<bar>50193/5000 - 10\<bar> \<le> (1/100) * (2 + 1/100) * (\<bar>10\<bar> + \<bar>4 :: real\<bar>)
   \<and> \<bar>50193/500 - 100\<bar> \<le> (1/100) * (2 + 1/100) * (\<bar>100\<bar> + \<bar>40 :: real\<bar>)"
proof -
  let ?e = "ex_position (Some ''BUY'') 10 100"
  let ?fb = "ex_position (Some ''BUY'') 4 40"
  let ?fs = "ex_position (Some ''SELL'') 4 40"
  let ?pf = "ex_portfolio [] [?e]"
  have ex: "find (\<lambda>p. pos_symbol p = pos_symbol ?fb) (pf_positions ?pf) = Some ?e"
    by (simp add: ex_defs)
  have sign: "pos_side ?e = Some ''BUY'' \<and> 0 < pos_quantity ?e
               \<or> pos_side ?e = Some ''SELL'' \<and> pos_quantity ?e < 0"
    by (simp add: ex_defs)
  have syms: "pos_symbol ?fs = pos_symbol ?fb" by (simp add: ex_defs)
  have sideb: "pos_side ?fb = Some ''BUY''" and sides: "pos_side ?fs = Some ''SELL''"
    by (simp_all add: ex_defs)
  have qpos: "0 < pos_quantity ?fb" and qeq: "pos_quantity ?fs = pos_quantity ?fb"
    and veq: "pos_value ?fs = pos_value ?fb"
    by (simp_all add: ex_defs)
  have exact_add: "\<forall>x y :: real. \<bar>(x + y) - (x + y)\<bar> \<le> 0 * \<bar>x + y\<bar>" by simp
  have exact_sub: "\<forall>x y :: real. \<bar>(x - y) - (x - y)\<bar> \<le> 0 * \<bar>x - y\<bar>" by simp
  have coarse_add: "\<forall>x y. \<bar>ex_fadd x y - (x + y)\<bar> \<le> (1/100) * \<bar>x + y\<bar>"
  proof (intro allI)
    fix x y :: real
    have eq: "ex_fadd x y - (x + y) = (x + y) * (1/100)"
      by (simp add: ex_fadd_def algebra_simps)
    show "\<bar>ex_fadd x y - (x + y)\<bar> \<le> (1/100) * \<bar>x + y\<bar>"
      unfolding eq by (simp add: abs_mult)
  qed
  have coarse_sub: "\<forall>x y. \<bar>ex_fsub x y - (x - y)\<bar> \<le> (1/100) * \<bar>x - y\<bar>"
  proof (intro allI)
    fix x y :: real
    have eq: "ex_fsub x y - (x - y) = (x - y) * (- (1/100))"
      by (simp add: ex_fsub_def field_simps)
    show "\<bar>ex_fsub x y - (x - y)\<bar> \<le> (1/100) * \<bar>x - y\<bar>"
      unfolding eq by (simp add: abs_mult)
  qed
  from netting_round_trip [of 0 "(+)" "(-)", OF _ _ exact_add exact_sub ex sign syms sideb sides
                             qpos qeq veq]
  obtain pa pb where
    a1: "net_position_fl (+) (-) ?fb ?pf = Inr pa"
    and a2: "net_position_fl (+) (-) ?fs pa = Inr pb"
    by auto
  have a3: "net_position_fl (+) (-) ?fb ?pf
              = Inr (ex_portfolio [] [ex_position (Some ''BUY'') 14 140])"
    by (simp add: ex_defs float_defs)
  with a1 have pa: "pa = ex_portfolio [] [ex_position (Some ''BUY'') 14 140]" by simp
  have a4: "net_position_fl (+) (-) ?fs (ex_portfolio [] [ex_position (Some ''BUY'') 14 140])
              = Inr ?pf"
    by (simp add: ex_defs float_defs)
  from netting_round_trip [of "1/100" ex_fadd ex_fsub, OF _ _ coarse_add coarse_sub ex sign syms
                             sideb sides qpos qeq veq]
  obtain pc pd e' where
    b1: "net_position_fl ex_fadd ex_fsub ?fb ?pf = Inr pc"
    and b2: "net_position_fl ex_fadd ex_fsub ?fs pc = Inr pd"
    and b3: "find (\<lambda>p. pos_symbol p = pos_symbol ?fb) (pf_positions pd) = Some e'"
    and bq: "\<bar>pos_quantity e' - pos_quantity ?e\<bar>
               \<le> (1/100) * (2 + 1/100) * (\<bar>pos_quantity ?e\<bar> + \<bar>pos_quantity ?fb\<bar>)"
    and bv: "\<bar>pos_value e' - pos_value ?e\<bar>
               \<le> (1/100) * (2 + 1/100) * (\<bar>pos_value ?e\<bar> + \<bar>pos_value ?fb\<bar>)"
    by auto
  have c1: "net_position_fl ex_fadd ex_fsub ?fb ?pf
              = Inr (ex_portfolio [] [ex_position (Some ''BUY'') (707/50) (707/5)])"
    by (simp add: ex_defs float_defs)
  with b1 have pc: "pc = ex_portfolio [] [ex_position (Some ''BUY'') (707/50) (707/5)]" by simp
  have c2: "net_position_fl ex_fadd ex_fsub ?fs
              (ex_portfolio [] [ex_position (Some ''BUY'') (707/50) (707/5)])
              = Inr (ex_portfolio [] [ex_position (Some ''BUY'') (50193/5000) (50193/500)])"
    by (simp add: ex_defs float_defs)
  with b2 pc have pd: "pd = ex_portfolio [] [ex_position (Some ''BUY'') (50193/5000) (50193/500)]"
    by simp
  from b3 have e': "e' = ex_position (Some ''BUY'') (50193/5000) (50193/500)"
    unfolding pd by (simp add: ex_defs)
  from bq have q: "\<bar>50193/5000 - 10\<bar> \<le> (1/100) * (2 + 1/100) * (\<bar>10\<bar> + \<bar>4 :: real\<bar>)"
    unfolding e' by (simp add: ex_defs)
  from bv have v: "\<bar>50193/500 - 100\<bar> \<le> (1/100) * (2 + 1/100) * (\<bar>100\<bar> + \<bar>40 :: real\<bar>)"
    unfolding e' by (simp add: ex_defs)
  from a3 a4 c1 c2 q v show ?thesis by (intro conjI)
qed

subsection \<open>Side and sign\<close>

text \<open>
  Claim C1 at a failing input. The portfolio has no position; a market SELL order for 10
  shares of ABC fills at the bid 9.5. \<open>__create_position\<close> copies the order's side and
  its positive quantity, so the stored position has side SELL and quantity 10 > 0.
  \<open>__update_existing_position\<close> then reads that quantity as signed: a further SELL fill
  of 5 adds to it, and the side computed from the sign is BUY.
\<close>

theorem first_sell_fill_keeps_positive_quantity:
  "cycle (ex_env (19/2) (191/20)) (ex_manager [ex_order ''o1'' ''MKT'' ''SELL'' 10 None] [])
     = (None, \<lparr>orders_collection = [],
               portfolios_collection =
                 [(''P'', ex_portfolio [] [ex_position (Some ''SELL'') 10 95])],
               contracts_collection = [\<lparr>contract_symbol = ''ABC'', con_id = 265598\<rparr>],
               orders = [ex_order ''o1'' ''MKT'' ''SELL'' 10 None],
               symbol_conid_map = [(''ABC'', 265598)],
               symbol_price_map = [(''ABC'', \<lparr>bid = Numeric (19/2), ask = Numeric (191/20)\<rparr>)],
               error_log = [], subs_cancelled = 0\<rparr>)
   \<and> pos_side (ex_position (Some ''SELL'') 10 95) = Some ''SELL''
   \<and> 0 < pos_quantity (ex_position (Some ''SELL'') 10 95)
   \<and> net_position (ex_position (Some ''SELL'') 5 50)
         (ex_portfolio [] [ex_position (Some ''SELL'') 10 95])
       = Inr (ex_portfolio [] [ex_position (Some ''BUY'') 15 145])"
  by (simp add: ex_defs engine_defs)

subsection \<open>One entry per symbol\<close>

text \<open>
  Claim C9 at a failing input. The portfolio holds a long position of 4 in ABC. In one
  cycle a market SELL of 4 nets it to zero, side none, and a market BUY of 10 follows.
  The first entry of the symbol has side none, so the fill is appended: the stored
  portfolio has two entries for ABC.
\<close>

theorem zero_position_duplicates_symbol:
  "map_of (portfolios_collection (snd (cycle (ex_env 10 (201/20))
       (ex_manager [ex_order ''o1'' ''MKT'' ''SELL'' 4 None, ex_order ''o2'' ''MKT'' ''BUY'' 10 None]
                   [ex_position (Some ''BUY'') 4 38])))) ''P''
     = Some (ex_portfolio [] [ex_position None 0 (- 2), ex_position (Some ''BUY'') 10 (201/2)])
   \<and> \<not> distinct (map pos_symbol (pf_positions
         (ex_portfolio [] [ex_position None 0 (- 2), ex_position (Some ''BUY'') 10 (201/2)])))"
  by (simp add: ex_defs engine_defs)

section \<open>Order resolution\<close>

subsection \<open>Market and limit orders\<close>

lemma process_order_with_quote:
  assumes "map_of (symbol_price_map s) (order_symbol ord) = Some \<lparr>bid = Numeric b, ask = Numeric a\<rparr>"
  shows "process_order ev s ord =
           (if order_type ord = ''MKT'' then process_market_order ev s ord a b
            else if order_type ord = ''LMT'' then process_limit_order ev s ord a b
            else process_market_order ev
                   (s\<lparr>error_log := error_log s @ [InvalidOrderType (order_type ord)]\<rparr>)
                   ord a b)"
  by (simp add: process_order_def process_order_single_def py_float_def assms)

text \<open>One pass of the loop body on a quoted MARKET order, and on a quoted LIMIT order.\<close>

lemma process_order_market:
  assumes ty: "order_type ord = ''MKT''"
    and quote: "map_of (symbol_price_map s) (order_symbol ord)
                  = Some \<lparr>bid = Numeric b, ask = Numeric a\<rparr>"
    and conid: "map_of (symbol_conid_map s) (order_symbol ord) = Some c"
  shows "process_order ev s ord =
           update_positions ev s
             \<lparr>pos_symbol = order_symbol ord,
              pos_quantity = order_quantity ord,
              pos_side = Some (order_side ord),
              pos_conid = c,
              pos_value = order_quantity ord * (if order_side ord = ''BUY'' then a else b)\<rparr>
             ord"
  by (simp add: process_order_with_quote [OF quote] ty process_market_order_def
                create_position_def conid)

lemma process_order_limit:
  assumes ty: "order_type ord = ''LMT''"
    and sd: "order_side ord = ''BUY'' \<or> order_side ord = ''SELL''"
    and lp: "order_limit_price ord = Some l"
    and quote: "map_of (symbol_price_map s) (order_symbol ord)
                  = Some \<lparr>bid = Numeric b, ask = Numeric a\<rparr>"
    and conid: "map_of (symbol_conid_map s) (order_symbol ord) = Some c"
  shows "process_order ev s ord =
           (if order_side ord = ''BUY'' \<and> a \<le> l \<or> order_side ord = ''SELL'' \<and> l \<le> b
            then update_positions ev s
                   \<lparr>pos_symbol = order_symbol ord,
                    pos_quantity = order_quantity ord,
                    pos_side = Some (order_side ord),
                    pos_conid = c,
                    pos_value = order_quantity ord * (if order_side ord = ''BUY'' then a else b)\<rparr>
                   ord
            else (None, s))"
proof -
  have "process_order ev s ord = process_limit_order ev s ord a b"
    by (simp add: process_order_with_quote [OF quote] ty)
  also have "\<dots> = (if order_side ord = ''BUY'' \<and> a \<le> l \<or> order_side ord = ''SELL'' \<and> l \<le> b
            then update_positions ev s
                   \<lparr>pos_symbol = order_symbol ord,
                    pos_quantity = order_quantity ord,
                    pos_side = Some (order_side ord),
                    pos_conid = c,
                    pos_value = order_quantity ord * (if order_side ord = ''BUY'' then a else b)\<rparr>
                   ord
            else (None, s))"
    using sd
  proof
    assume "order_side ord = ''BUY''"
    then show ?thesis
      by (simp add: process_limit_order_def lp create_position_def conid not_le)
  next
    assume "order_side ord = ''SELL''"
    then show ?thesis
      by (simp add: process_limit_order_def lp create_position_def conid not_le)
  qed
  finally show ?thesis .
qed


subsection \<open>Retiring the order\<close>

text \<open>
  What \<open>__update_positions\<close> does once the portfolio is found and the fill is netted:
  the order's document is deleted, then the portfolio is written.
\<close>

lemma update_positions_written:
  assumes pf: "map_of (portfolios_collection s) (order_portfolio_id ord) = Some pf"
    and net: "net_position f pf = Inr pf1"
  shows "update_positions ev s f ord =
           (if set_fails ev (order_portfolio_id ord)
            then (Some WriteError,
                  s\<lparr>orders_collection :=
                      filter (\<lambda>x. order_id x \<noteq> order_id ord) (orders_collection s)\<rparr>)
            else (None,
                  s\<lparr>orders_collection :=
                      filter (\<lambda>x. order_id x \<noteq> order_id ord) (orders_collection s),
                    portfolios_collection :=
                      AList.update (order_portfolio_id ord)
                        (pf1\<lparr>pf_orders :=
                               filter (\<lambda>x. order_id x \<noteq> order_id ord) (pf_orders pf1)\<rparr>)
                        (portfolios_collection s)\<rparr>))"
  by (simp add: update_positions_def pf net remove_order_def)

lemma update_positions_None:
  assumes "update_positions ev s f ord = (None, s')"
  shows "\<exists>pf pf1. map_of (portfolios_collection s) (order_portfolio_id ord) = Some pf
           \<and> net_position f pf = Inr pf1 \<and> \<not> set_fails ev (order_portfolio_id ord)"
proof (cases "map_of (portfolios_collection s) (order_portfolio_id ord)")
  case None
  with assms show ?thesis by (simp add: update_positions_def)
next
  case (Some pf)
  show ?thesis
  proof (cases "net_position f pf")
    case (Inl e)
    with Some assms show ?thesis by (simp add: update_positions_def)
  next
    case (Inr pf1)
    from assms update_positions_written [OF Some Inr, of ev]
    have "\<not> set_fails ev (order_portfolio_id ord)"
      by (cases "set_fails ev (order_portfolio_id ord)") simp_all
    with Some Inr show ?thesis by blast
  qed
qed

lemma update_positions_retires:
  assumes "update_positions ev s f ord = (None, s')"
  shows "order_id ord \<notin> order_id ` set (orders_collection s')
         \<and> (\<exists>pf'. map_of (portfolios_collection s') (order_portfolio_id ord) = Some pf'
                   \<and> order_id ord \<notin> order_id ` set (pf_orders pf'))"
proof -
  from update_positions_None [OF assms] obtain pf pf1 where
    pf: "map_of (portfolios_collection s) (order_portfolio_id ord) = Some pf"
    and net: "net_position f pf = Inr pf1"
    and ok: "\<not> set_fails ev (order_portfolio_id ord)"
    by blast
  from assms update_positions_written [OF pf net, of ev] ok
  have s': "s' = s\<lparr>orders_collection :=
                      filter (\<lambda>x. order_id x \<noteq> order_id ord) (orders_collection s),
                    portfolios_collection :=
                      AList.update (order_portfolio_id ord)
                        (pf1\<lparr>pf_orders :=
                               filter (\<lambda>x. order_id x \<noteq> order_id ord) (pf_orders pf1)\<rparr>)
                        (portfolios_collection s)\<rparr>"
    by simp
  have a: "order_id ord \<notin> order_id ` set (orders_collection s')"
    unfolding s' by auto
  have b: "map_of (portfolios_collection s') (order_portfolio_id ord)
             = Some (pf1\<lparr>pf_orders :=
                               filter (\<lambda>x. order_id x \<noteq> order_id ord) (pf_orders pf1)\<rparr>)"
    unfolding s' by (simp add: update_conv')
  have c: "order_id ord \<notin> order_id ` set (pf_orders (pf1\<lparr>pf_orders :=
                               filter (\<lambda>x. order_id x \<noteq> order_id ord) (pf_orders pf1)\<rparr>))"
    by auto
  from a b c show ?thesis by blast
qed


lemma process_market_order_retires:
  assumes "process_market_order ev s ord a b = (None, s')"
  shows "order_id ord \<notin> order_id ` set (orders_collection s')
         \<and> (\<exists>pf'. map_of (portfolios_collection s') (order_portfolio_id ord) = Some pf'
                   \<and> order_id ord \<notin> order_id ` set (pf_orders pf'))"
proof (cases "create_position s ord (if order_side ord = ''BUY'' then a else b)")
  case (Inl e)
  with assms show ?thesis by (simp add: process_market_order_def)
next
  case (Inr p)
  with assms have "update_positions ev s p ord = (None, s')"
    by (simp add: process_market_order_def)
  then show ?thesis by (rule update_positions_retires)
qed

lemma process_limit_order_None:
  assumes run: "process_limit_order ev s ord a b = (None, s')"
  shows "if \<exists>l. order_limit_price ord = Some l
               \<and> (order_side ord = ''BUY'' \<and> l < a \<or> order_side ord = ''SELL'' \<and> b < l)
         then s' = s
         else order_id ord \<notin> order_id ` set (orders_collection s')
              \<and> (\<exists>pf'. map_of (portfolios_collection s') (order_portfolio_id ord) = Some pf'
                        \<and> order_id ord \<notin> order_id ` set (pf_orders pf'))"
proof -
  let ?fill = "case create_position s ord (if order_side ord = ''BUY'' then a else b) of
                 Inl e \<Rightarrow> (Some e, s) | Inr position \<Rightarrow> update_positions ev s position ord"
  have fill_retires: "?fill = (None, s') \<Longrightarrow>
      order_id ord \<notin> order_id ` set (orders_collection s')
         \<and> (\<exists>pf'. map_of (portfolios_collection s') (order_portfolio_id ord) = Some pf'
                   \<and> order_id ord \<notin> order_id ` set (pf_orders pf'))"
    using process_market_order_retires [of ev s ord a b s']
    by (simp add: process_market_order_def)
  consider (buy) "order_side ord = ''BUY''" | (sell) "order_side ord = ''SELL''"
    | (other) "order_side ord \<noteq> ''BUY''" "order_side ord \<noteq> ''SELL''"
    by blast
  then show ?thesis
  proof cases
    case buy
    show ?thesis
    proof (cases "order_limit_price ord")
      case None
      with buy run show ?thesis by (simp add: process_limit_order_def)
    next
      case (Some l)
      show ?thesis
      proof (cases "l < a")
        case True
        with buy Some run show ?thesis by (simp add: process_limit_order_def)
      next
        case False
        with buy Some run have "?fill = (None, s')"
          by (simp add: process_limit_order_def)
        from fill_retires [OF this] buy Some False show ?thesis by simp
      qed
    qed
  next
    case sell
    show ?thesis
    proof (cases "order_limit_price ord")
      case None
      with sell run show ?thesis by (simp add: process_limit_order_def)
    next
      case (Some l)
      show ?thesis
      proof (cases "b < l")
        case True
        with sell Some run show ?thesis by (simp add: process_limit_order_def)
      next
        case False
        with sell Some run have "?fill = (None, s')"
          by (simp add: process_limit_order_def)
        from fill_retires [OF this] sell Some False show ?thesis by simp
      qed
    qed
  next
    case other
    with run have "?fill = (None, s')"
      by (simp add: process_limit_order_def)
    from fill_retires [OF this] other show ?thesis by simp
  qed
qed

lemma process_order_None_quote:
  assumes run: "process_order ev s ord = (None, s')"
    and q: "map_of (symbol_price_map s) (order_symbol ord) = Some q"
  shows "\<exists>a b. q = \<lparr>bid = Numeric b, ask = Numeric a\<rparr>"
proof -
  from run q have single: "process_order_single ev s ord = (None, s')"
    by (simp add: process_order_def)
  obtain a where a: "ask q = Numeric a"
  proof (cases "ask q")
    case (Numeric r)
    then show ?thesis by (rule that)
  next
    case NonNumeric
    with single q show ?thesis by (simp add: process_order_single_def py_float_def)
  next
    case PyNone
    with single q show ?thesis by (simp add: process_order_single_def py_float_def)
  qed
  obtain b where b: "bid q = Numeric b"
  proof (cases "bid q")
    case (Numeric r)
    then show ?thesis by (rule that)
  next
    case NonNumeric
    with single q a show ?thesis by (simp add: process_order_single_def py_float_def)
  next
    case PyNone
    with single q a show ?thesis by (simp add: process_order_single_def py_float_def)
  qed
  have "q = \<lparr>bid = bid q, ask = ask q\<rparr>" by simp
  with a b show ?thesis by metis
qed

text \<open>
  One pass of the loop body that raises nothing either leaves the state as it is (no quote,
  or a limit that the quote does not meet) or retires the order.
\<close>

lemma process_order_retires_or_untouched:
  assumes run: "process_order ev s ord = (None, s')"
  shows "if map_of (symbol_price_map s) (order_symbol ord) = None
            \<or> (order_type ord = ''LMT''
                \<and> (\<exists>a b l. map_of (symbol_price_map s) (order_symbol ord)
                               = Some \<lparr>bid = Numeric b, ask = Numeric a\<rparr>
                           \<and> order_limit_price ord = Some l
                           \<and> (order_side ord = ''BUY'' \<and> l < a
                               \<or> order_side ord = ''SELL'' \<and> b < l)))
         then s' = s
         else order_id ord \<notin> order_id ` set (orders_collection s')
              \<and> (\<exists>pf'. map_of (portfolios_collection s') (order_portfolio_id ord) = Some pf'
                        \<and> order_id ord \<notin> order_id ` set (pf_orders pf'))"
proof (cases "map_of (symbol_price_map s) (order_symbol ord)")
  case None
  with run show ?thesis by (simp add: process_order_def)
next
  case (Some q)
  from process_order_None_quote [OF run Some] obtain a b where
    q: "q = \<lparr>bid = Numeric b, ask = Numeric a\<rparr>" by blast
  have quote: "map_of (symbol_price_map s) (order_symbol ord)
                 = Some \<lparr>bid = Numeric b, ask = Numeric a\<rparr>"
    using Some q by simp
  note step = process_order_with_quote [OF quote, of ev]
  consider (mkt) "order_type ord = ''MKT''" | (lmt) "order_type ord = ''LMT''"
    | (other) "order_type ord \<noteq> ''MKT''" "order_type ord \<noteq> ''LMT''"
    by blast
  then show ?thesis
  proof cases
    case mkt
    with run step have "process_market_order ev s ord a b = (None, s')" by simp
    from process_market_order_retires [OF this] mkt quote show ?thesis by simp
  next
    case other
    with run step have "process_market_order ev
        (s\<lparr>error_log := error_log s @ [InvalidOrderType (order_type ord)]\<rparr>) ord a b = (None, s')"
      by simp
    from process_market_order_retires [OF this] other quote show ?thesis by simp
  next
    case lmt
    with run step have "process_limit_order ev s ord a b = (None, s')" by simp
    from process_limit_order_None [OF this] lmt quote show ?thesis by simp
  qed
qed


text \<open>
  Claim C5, as amended. For a fill that reaches the write, the order is deleted from the
  pending-order store first. When the write succeeds, the position change and the removal
  of the order reference are in the one portfolio document written. When the write fails,
  \<open>WriteError\<close> is raised, the stored portfolios are as before, and the order is already
  gone from the pending-order store.
\<close>

theorem ledger_deletes_order_before_write:
  assumes pf: "map_of (portfolios_collection s) (order_portfolio_id ord) = Some pf"
    and net: "net_position f pf = Inr pf1"
  shows "\<exists>s'. update_positions ev s f ord
                = (if set_fails ev (order_portfolio_id ord) then Some WriteError else None, s')
           \<and> orders_collection s'
                = filter (\<lambda>x. order_id x \<noteq> order_id ord) (orders_collection s)
           \<and> order_id ord \<notin> order_id ` set (orders_collection s')
           \<and> map_of (portfolios_collection s') (order_portfolio_id ord)
                = Some (if set_fails ev (order_portfolio_id ord) then pf
                        else pf1\<lparr>pf_orders :=
                                   filter (\<lambda>x. order_id x \<noteq> order_id ord) (pf_orders pf1)\<rparr>)
           \<and> (if set_fails ev (order_portfolio_id ord)
                then portfolios_collection s' = portfolios_collection s
                else portfolios_collection s'
                       = AList.update (order_portfolio_id ord)
                           (pf1\<lparr>pf_orders :=
                                  filter (\<lambda>x. order_id x \<noteq> order_id ord) (pf_orders pf1)\<rparr>)
                           (portfolios_collection s))"
proof (cases "set_fails ev (order_portfolio_id ord)")
  case True
  let ?s' = "s\<lparr>orders_collection :=
                  filter (\<lambda>x. order_id x \<noteq> order_id ord) (orders_collection s)\<rparr>"
  have "update_positions ev s f ord = (Some WriteError, ?s')"
    using update_positions_written [OF pf net, of ev] True by simp
  moreover have "order_id ord \<notin> order_id ` set (orders_collection ?s')" by auto
  ultimately show ?thesis using True pf by (intro exI [of _ ?s']) simp
next
  case False
  let ?pf2 = "pf1\<lparr>pf_orders := filter (\<lambda>x. order_id x \<noteq> order_id ord) (pf_orders pf1)\<rparr>"
  let ?s' = "s\<lparr>orders_collection :=
                  filter (\<lambda>x. order_id x \<noteq> order_id ord) (orders_collection s),
                portfolios_collection :=
                  AList.update (order_portfolio_id ord) ?pf2 (portfolios_collection s)\<rparr>"
  have "update_positions ev s f ord = (None, ?s')"
    using update_positions_written [OF pf net, of ev] False by simp
  moreover have "order_id ord \<notin> order_id ` set (orders_collection ?s')" by auto
  moreover have "map_of (portfolios_collection ?s') (order_portfolio_id ord) = Some ?pf2"
    by (simp add: update_conv')
  ultimately show ?thesis using False by (intro exI [of _ ?s']) simp
qed

text \<open>
  Claim C5 as it is written fails: the store refuses the write of portfolio P, and after
  the cycle the pending-order store is empty, while P still lists the order and has no
  position. The exception leaves the cycle.
\<close>

theorem write_failure_loses_order:
  "set_fails (ex_env_write_fails (19/2) (191/20)) ''P''
   \<and> cycle (ex_env_write_fails (19/2) (191/20))
        (ex_manager [ex_order ''o1'' ''MKT'' ''BUY'' 10 None] [])
     = (Some WriteError,
        \<lparr>orders_collection = [],
         portfolios_collection =
           [(''P'', ex_portfolio [ex_order ''o1'' ''MKT'' ''BUY'' 10 None] [])],
         contracts_collection = [\<lparr>contract_symbol = ''ABC'', con_id = 265598\<rparr>],
         orders = [ex_order ''o1'' ''MKT'' ''BUY'' 10 None],
         symbol_conid_map = [(''ABC'', 265598)],
         symbol_price_map = [(''ABC'', \<lparr>bid = Numeric (19/2), ask = Numeric (191/20)\<rparr>)],
         error_log = [], subs_cancelled = 0\<rparr>)
   \<and> ex_order ''o1'' ''MKT'' ''BUY'' 10 None
       \<notin> set (orders_collection (snd (cycle (ex_env_write_fails (19/2) (191/20))
                 (ex_manager [ex_order ''o1'' ''MKT'' ''BUY'' 10 None] []))))"
  by (simp add: ex_defs engine_defs)

section \<open>The quote cache\<close>

subsection \<open>A quote source that fails\<close>

lemma map_orders_to_conids_frame:
  "symbol_price_map (map_orders_to_conids s) = []"
  "orders_collection (map_orders_to_conids s) = orders_collection s"
  "portfolios_collection (map_orders_to_conids s) = portfolios_collection s"
  "contracts_collection (map_orders_to_conids s) = contracts_collection s"
  "orders (map_orders_to_conids s) = orders s"
  "error_log (map_orders_to_conids s) = error_log s"
  "subs_cancelled (map_orders_to_conids s) = subs_cancelled s"
  by (simp_all add: map_orders_to_conids_def Let_def)

lemma process_order_list_no_quotes:
  "symbol_price_map s = [] \<Longrightarrow> process_order_list ev ords s = (None, s)"
  by (induction ords) (simp_all add: process_order_def)

text \<open>
  Claim C8. The resolver found at least one instrument and the quote source raises. Then
  the cycle ends without an exception; the failure is in the error log; the quote cache is
  empty; every order was skipped, so the pending-order store and the portfolios are as
  before the cycle. In any state, an order whose symbol has no quote is skipped and the
  state stays as it is. And a snapshot of a known instrument that lacks the bid or the
  ask leaves the cache as it was.
\<close>

theorem quote_failure_defers_orders:
  assumes conids: "symbol_conid_map (map_orders_to_conids (update_orders s)) \<noteq> []"
    and fails: "market_data_snapshot ev
                  (map snd (symbol_conid_map (map_orders_to_conids (update_orders s)))) FIELDS
                = Inl e"
    and known: "index (map snd cm) (snap_conidEx snap) = Inr i"
    and missing: "snap_84 snap = None \<or> snap_86 snap = None"
    and unquoted: "map_of (symbol_price_map t) (order_symbol ord) = None"
  shows "cycle ev s =
           (None, (map_orders_to_conids (update_orders s))
                    \<lparr>error_log := error_log s @ [SnapshotFailure e]\<rparr>)
         \<and> symbol_price_map (snd (cycle ev s)) = []
         \<and> orders_collection (snd (cycle ev s)) = orders_collection s
         \<and> portfolios_collection (snd (cycle ev s)) = portfolios_collection s
         \<and> process_order ev' t ord = (None, t)
         \<and> store_snapshots cm (snap # snaps) pm = store_snapshots cm snaps pm"
proof -
  let ?s1 = "map_orders_to_conids (update_orders s)"
  let ?s2 = "?s1\<lparr>error_log := error_log s @ [SnapshotFailure e]\<rparr>"
  have log: "error_log ?s1 = error_log s"
    by (simp add: map_orders_to_conids_frame update_orders_def)
  have get: "get_market_data_snapshots ev ?s1 = (None, ?s2)"
    using conids fails by (simp add: get_market_data_snapshots_def log)
  have empty: "symbol_price_map ?s2 = []"
    by (simp add: map_orders_to_conids_frame)
  have "process_orders ev ?s2 = (None, ?s2)"
    unfolding process_orders_def by (rule process_order_list_no_quotes [OF empty])
  with get have c: "cycle ev s = (None, ?s2)"
    by (simp add: cycle_def)
  have oc: "orders_collection ?s2 = orders_collection s"
    by (simp add: map_orders_to_conids_frame update_orders_def)
  have pc: "portfolios_collection ?s2 = portfolios_collection s"
    by (simp add: map_orders_to_conids_frame update_orders_def)
  have drop: "store_snapshots cm (snap # snaps) pm = store_snapshots cm snaps pm"
    using missing
  proof
    assume "snap_84 snap = None"
    then show ?thesis by (simp add: known)
  next
    assume n: "snap_86 snap = None"
    show ?thesis by (cases "snap_84 snap") (simp_all add: known n)
  qed
  have skip: "process_order ev' t ord = (None, t)"
    using unquoted by (simp add: process_order_def)
  show ?thesis
    unfolding c using empty oc pc skip drop by simp
qed

subsection \<open>A quote for an unknown instrument\<close>

lemma index_Inl: "index xs v = Inl e \<Longrightarrow> e = ValueError"
  by (induction xs) (auto split: if_splits sum.splits)

lemma index_absent: "v \<notin> set xs \<Longrightarrow> index xs v = Inl ValueError"
  by (induction xs) auto

lemma index_Inr: "index xs v = Inr i \<Longrightarrow> i < length xs \<and> xs ! i = v"
proof (induction xs arbitrary: i)
  case Nil
  then show ?case by simp
next
  case (Cons x xs)
  show ?case
  proof (cases "x = v")
    case True
    with Cons.prems show ?thesis by simp
  next
    case False
    with Cons.prems obtain j where j: "index xs v = Inr j" and i: "i = Suc j"
      by (cases "index xs v") simp_all
    from Cons.IH [OF j] i show ?thesis by simp
  qed
qed

lemma store_snapshots_unknown:
  "snap \<in> set snaps \<Longrightarrow> snap_conidEx snap \<notin> set (map snd cm) \<Longrightarrow>
   fst (store_snapshots cm snaps pm) = Some ValueError"
proof (induction snaps arbitrary: pm)
  case Nil
  then show ?case by simp
next
  case (Cons x xs)
  show ?case
  proof (cases "index (map snd cm) (snap_conidEx x)")
    case (Inl e)
    then have "e = ValueError" by (rule index_Inl)
    with Inl show ?thesis by simp
  next
    case (Inr i)
    with Cons.prems have "x \<noteq> snap"
      using index_absent [of "snap_conidEx snap" "map snd cm"] by auto
    with Cons.prems have "snap \<in> set xs" by simp
    note ih = Cons.IH [OF this Cons.prems(2)]
    show ?thesis
      by (cases "snap_84 x"; cases "snap_86 x") (simp_all add: Inr ih)
  qed
qed

text \<open>
  Claim C10. The quote source answers, and one snapshot of the answer carries an
  instrument identifier that is not a value of this cycle's symbol-to-conid map. Then the
  reverse lookup raises \<open>ValueError\<close> in the loop after the \<open>try\<close> block; the exception
  leaves \<open>__get_market_data_snapshots\<close> and the cycle, and \<open>run\<close>, which handles
  \<open>KeyboardInterrupt\<close> only, ends with it.
\<close>

theorem unknown_conid_stops_run:
  assumes conids: "symbol_conid_map (map_orders_to_conids (update_orders s)) \<noteq> []"
    and reply: "market_data_snapshot ev
                  (map snd (symbol_conid_map (map_orders_to_conids (update_orders s)))) FIELDS
                = Inr snaps"
    and snap: "snap \<in> set snaps"
    and unknown: "snap_conidEx snap
                    \<notin> snd ` set (symbol_conid_map (map_orders_to_conids (update_orders s)))"
  shows "\<exists>s'. get_market_data_snapshots ev (map_orders_to_conids (update_orders s))
                 = (Some ValueError, s')
              \<and> cycle ev s = (Some ValueError, s')
              \<and> run_loop (Tick ev # evs) n s = Crashed ValueError s'"
proof -
  let ?s1 = "map_orders_to_conids (update_orders s)"
  obtain r pm where st: "store_snapshots (symbol_conid_map ?s1) snaps (symbol_price_map ?s1) = (r, pm)"
    by (cases "store_snapshots (symbol_conid_map ?s1) snaps (symbol_price_map ?s1)")
  from unknown have "snap_conidEx snap \<notin> set (map snd (symbol_conid_map ?s1))" by simp
  from store_snapshots_unknown [OF snap this, of "symbol_price_map ?s1"] st
  have r: "r = Some ValueError" by simp
  let ?s' = "?s1\<lparr>symbol_price_map := pm\<rparr>"
  have get: "get_market_data_snapshots ev ?s1 = (Some ValueError, ?s')"
    using conids reply st r by (simp add: get_market_data_snapshots_def)
  then have c: "cycle ev s = (Some ValueError, ?s')"
    by (simp add: cycle_def)
  then have "run_loop (Tick ev # evs) n s = Crashed ValueError ?s'"
    by simp
  with get c show ?thesis by blast
qed

subsection \<open>Quoted symbols are resolved symbols\<close>

text \<open>
  The cache is emptied by the resolver and filled through the reverse lookup only, so
  every symbol with a quote has an instrument: \<open>__create_position\<close> cannot raise
  \<open>KeyError\<close> within a cycle.
\<close>

lemma store_snapshots_keys:
  "fst ` set pm \<subseteq> fst ` set cm \<Longrightarrow>
   fst ` set (snd (store_snapshots cm snaps pm)) \<subseteq> fst ` set cm"
proof (induction snaps arbitrary: pm)
  case Nil
  then show ?case by simp
next
  case (Cons x xs)
  show ?case
  proof (cases "index (map snd cm) (snap_conidEx x)")
    case (Inl e)
    with Cons.prems show ?thesis by simp
  next
    case (Inr i)
    from index_Inr [OF Inr] have "i < length cm" by simp
    then have "map fst cm ! i \<in> fst ` set cm" by (metis length_map nth_mem set_map)
    with Cons.prems have
      "\<And>q. fst ` set (AList.update (map fst cm ! i) q pm) \<subseteq> fst ` set cm"
      by (simp add: dom_update)
    note ih1 = Cons.IH [OF this]
    note ih2 = Cons.IH [OF Cons.prems]
    show ?thesis
      by (cases "snap_84 x"; cases "snap_86 x") (simp_all add: Inr ih1 ih2)
  qed
qed

lemma quoted_symbol_is_resolved:
  assumes "get_market_data_snapshots ev (map_orders_to_conids s) = (r, s')"
    and "map_of (symbol_price_map s') sy = Some q"
  shows "\<exists>c. map_of (symbol_conid_map s') sy = Some c"
proof -
  let ?s1 = "map_orders_to_conids s"
  have e: "symbol_price_map ?s1 = []" by (simp add: map_orders_to_conids_frame)
  have "fst ` set (symbol_price_map s') \<subseteq> fst ` set (symbol_conid_map s')"
  proof (cases "map snd (symbol_conid_map ?s1) = []")
    case True
    with assms(1) e show ?thesis by (simp add: get_market_data_snapshots_def)
  next
    case False
    show ?thesis
    proof (cases "market_data_snapshot ev (map snd (symbol_conid_map ?s1)) FIELDS")
      case (Inl x)
      with False assms(1) e show ?thesis
        by (auto simp: get_market_data_snapshots_def)
    next
      case (Inr snaps)
      have k: "fst ` set (snd (store_snapshots (symbol_conid_map ?s1) snaps []))
                 \<subseteq> fst ` set (symbol_conid_map ?s1)"
        by (rule store_snapshots_keys) simp
      obtain r' pm where st: "store_snapshots (symbol_conid_map ?s1) snaps [] = (r', pm)"
        by (cases "store_snapshots (symbol_conid_map ?s1) snaps []")
      with False Inr assms(1) e have "s' = ?s1\<lparr>symbol_price_map := pm\<rparr>"
        by (simp add: get_market_data_snapshots_def)
      with k st show ?thesis by simp
    qed
  qed
  moreover from assms(2) have "sy \<in> fst ` set (symbol_price_map s')"
    by (metis map_of_eq_None_iff option.distinct(1))
  ultimately have "sy \<in> fst ` set (symbol_conid_map s')" by blast
  then show ?thesis by (metis map_of_eq_None_iff not_Some_eq)
qed

section \<open>The cycle\<close>

subsection \<open>The order loop\<close>

text \<open>
  The loop stops at the first order that raises. Processing an order leaves the two maps
  and the loaded orders as they are.
\<close>

lemma process_order_list_append:
  "process_order_list ev (xs @ ys) s =
     (case process_order_list ev xs s of
        (Some e, s') \<Rightarrow> (Some e, s')
      | (None, s') \<Rightarrow> process_order_list ev ys s')"
proof (induction xs arbitrary: s)
  case Nil
  then show ?case by simp
next
  case (Cons x xs)
  obtain r s1 where st: "process_order ev s x = (r, s1)" by (cases "process_order ev s x")
  show ?case
  proof (cases r)
    case None
    with st Cons.IH [of s1] show ?thesis by simp
  next
    case (Some e)
    with st show ?thesis by simp
  qed
qed

lemma update_positions_maps:
  assumes "update_positions ev s f ord = (r, s')"
  shows "symbol_price_map s' = symbol_price_map s \<and> symbol_conid_map s' = symbol_conid_map s
         \<and> orders s' = orders s"
proof (cases "map_of (portfolios_collection s) (order_portfolio_id ord)")
  case None
  with assms show ?thesis by (simp add: update_positions_def)
next
  case (Some pf)
  show ?thesis
  proof (cases "net_position f pf")
    case (Inl e)
    with Some assms show ?thesis by (simp add: update_positions_def)
  next
    case (Inr pf1)
    from assms update_positions_written [OF Some Inr, of ev] show ?thesis
      by (cases "set_fails ev (order_portfolio_id ord)") auto
  qed
qed

lemma process_market_order_maps:
  assumes "process_market_order ev s ord a b = (r, s')"
  shows "symbol_price_map s' = symbol_price_map s \<and> symbol_conid_map s' = symbol_conid_map s
         \<and> orders s' = orders s"
proof (cases "create_position s ord (if order_side ord = ''BUY'' then a else b)")
  case (Inl e)
  with assms show ?thesis by (simp add: process_market_order_def)
next
  case (Inr p)
  with assms have "update_positions ev s p ord = (r, s')"
    by (simp add: process_market_order_def)
  then show ?thesis by (rule update_positions_maps)
qed

lemma process_limit_order_maps:
  assumes "process_limit_order ev s ord a b = (r, s')"
  shows "symbol_price_map s' = symbol_price_map s \<and> symbol_conid_map s' = symbol_conid_map s
         \<and> orders s' = orders s"
proof (cases "process_limit_order ev s ord a b = process_market_order ev s ord a b")
  case True
  with assms show ?thesis using process_market_order_maps by simp
next
  case False
  then have "s' = s"
    using assms
    by (simp add: process_limit_order_def process_market_order_def split: if_splits)
  then show ?thesis by simp
qed

lemma process_order_maps:
  assumes "process_order ev s ord = (r, s')"
  shows "symbol_price_map s' = symbol_price_map s \<and> symbol_conid_map s' = symbol_conid_map s
         \<and> orders s' = orders s"
proof (cases "map_of (symbol_price_map s) (order_symbol ord)")
  case None
  with assms show ?thesis by (simp add: process_order_def)
next
  case (Some q)
  with assms have single: "process_order_single ev s ord = (r, s')"
    by (simp add: process_order_def)
  show ?thesis
  proof (cases "py_float (ask q)")
    case (Inl e)
    with single Some show ?thesis by (simp add: process_order_single_def)
  next
    case a: (Inr a)
    show ?thesis
    proof (cases "py_float (bid q)")
      case (Inl e)
      with single Some a show ?thesis by (simp add: process_order_single_def)
    next
      case b: (Inr b)
      consider (mkt) "order_type ord = ''MKT''" | (lmt) "order_type ord = ''LMT''"
        | (other) "order_type ord \<noteq> ''MKT''" "order_type ord \<noteq> ''LMT''"
        by blast
      then show ?thesis
      proof cases
        case mkt
        with single Some a b have "process_market_order ev s ord a b = (r, s')"
          by (simp add: process_order_single_def)
        then show ?thesis by (rule process_market_order_maps)
      next
        case lmt
        with single Some a b have "process_limit_order ev s ord a b = (r, s')"
          by (simp add: process_order_single_def)
        then show ?thesis by (rule process_limit_order_maps)
      next
        case other
        with single Some a b have "process_market_order ev
            (s\<lparr>error_log := error_log s @ [InvalidOrderType (order_type ord)]\<rparr>) ord a b = (r, s')"
          by (simp add: process_order_single_def)
        from process_market_order_maps [OF this] show ?thesis by simp
      qed
    qed
  qed
qed

lemma process_order_list_maps:
  "process_order_list ev ords s = (r, s') \<Longrightarrow>
   symbol_price_map s' = symbol_price_map s \<and> symbol_conid_map s' = symbol_conid_map s
   \<and> orders s' = orders s"
proof (induction ords arbitrary: s)
  case Nil
  then show ?case by simp
next
  case (Cons x xs)
  obtain r1 s1 where st: "process_order ev s x = (r1, s1)" by (cases "process_order ev s x")
  note m = process_order_maps [OF st]
  show ?case
  proof (cases r1)
    case None
    with st Cons.prems have "process_order_list ev xs s1 = (r, s')" by simp
    from Cons.IH [OF this] m show ?thesis by simp
  next
    case (Some e)
    with st Cons.prems have "s' = s1" by simp
    with m show ?thesis by simp
  qed
qed

lemma cycle_after_refresh:
  assumes "get_market_data_snapshots ev (map_orders_to_conids (update_orders s)) = (r0, s0)"
  shows "cycle ev s =
           (case r0 of Some e \<Rightarrow> (Some e, s0)
            | None \<Rightarrow> process_order_list ev (orders s0) s0)"
  using assms by (cases r0) (simp_all add: cycle_def process_orders_def)

lemma cycle_at_order:
  assumes refresh: "get_market_data_snapshots ev (map_orders_to_conids (update_orders s)) = (r0, s0)"
    and split: "orders s0 = pre @ ord # rest"
  shows "cycle ev s =
           (case r0 of Some e \<Rightarrow> (Some e, s0)
            | None \<Rightarrow>
               (case process_order_list ev pre s0 of
                  (Some e, s1) \<Rightarrow> (Some e, s1)
                | (None, s1) \<Rightarrow>
                    (case process_order ev s1 ord of
                       (Some e, s2) \<Rightarrow> (Some e, s2)
                     | (None, s2) \<Rightarrow> process_order_list ev rest s2)))"
proof (cases r0)
  case (Some e)
  with cycle_after_refresh [OF refresh] show ?thesis by simp
next
  case None
  obtain r1 s1 where p: "process_order_list ev pre s0 = (r1, s1)"
    by (cases "process_order_list ev pre s0")
  from None cycle_after_refresh [OF refresh]
  have "cycle ev s = process_order_list ev (pre @ ord # rest) s0"
    by (simp add: split)
  with None p show ?thesis
    by (cases r1) (simp_all add: process_order_list_append)
qed

subsection \<open>An order in its cycle\<close>

lemma cycle_at_quoted_order:
  assumes refresh: "get_market_data_snapshots ev (map_orders_to_conids (update_orders s)) = (r0, s0)"
    and split: "orders s0 = pre @ ord # rest"
    and step: "\<And>s1. symbol_price_map s1 = symbol_price_map s0 \<Longrightarrow>
                    symbol_conid_map s1 = symbol_conid_map s0 \<Longrightarrow>
                    process_order ev s1 ord = F s1"
  shows "cycle ev s =
           (case r0 of Some e \<Rightarrow> (Some e, s0)
            | None \<Rightarrow>
               (case process_order_list ev pre s0 of
                  (Some e, s1) \<Rightarrow> (Some e, s1)
                | (None, s1) \<Rightarrow>
                    (case F s1 of
                       (Some e, s2) \<Rightarrow> (Some e, s2)
                     | (None, s2) \<Rightarrow> process_order_list ev rest s2)))"
proof -
  obtain r1 s1 where p: "process_order_list ev pre s0 = (r1, s1)"
    by (cases "process_order_list ev pre s0")
  from process_order_list_maps [OF p] have "process_order ev s1 ord = F s1"
    by (intro step) simp_all
  with p cycle_at_order [OF refresh split] show ?thesis
    by (cases r0; cases r1) simp_all
qed

text \<open>
  Claim C4, as amended. A MARKET order of this cycle whose symbol has a quote in the
  cycle's cache, with bid and ask that \<open>float\<close> converts. Its symbol has an instrument in
  the resolver's map. If the quote refresh raises, or an order before it in the loop
  raises, the cycle ends with that exception and the order is not looked at. Otherwise
  the order is filled in this cycle: the ledger receives the fill
  \<open>{symbol, quantity, side, instrument}\<close> with value quantity times fill price, the fill
  price being the ask for a BUY and the bid otherwise, and the loop goes on with the
  orders after it unless the ledger raises.
\<close>

theorem market_order_fills:
  assumes refresh: "get_market_data_snapshots ev (map_orders_to_conids (update_orders s)) = (r0, s0)"
    and split: "orders s0 = pre @ ord # rest"
    and ty: "order_type ord = ''MKT''"
    and quote: "map_of (symbol_price_map s0) (order_symbol ord)
                  = Some \<lparr>bid = Numeric b, ask = Numeric a\<rparr>"
  shows "\<exists>c. map_of (symbol_conid_map s0) (order_symbol ord) = Some c
           \<and> cycle ev s =
               (case r0 of Some e \<Rightarrow> (Some e, s0)
                | None \<Rightarrow>
                   (case process_order_list ev pre s0 of
                      (Some e, s1) \<Rightarrow> (Some e, s1)
                    | (None, s1) \<Rightarrow>
                        (case update_positions ev s1
                                \<lparr>pos_symbol = order_symbol ord,
                                 pos_quantity = order_quantity ord,
                                 pos_side = Some (order_side ord),
                                 pos_conid = c,
                                 pos_value = order_quantity ord
                                             * (if order_side ord = ''BUY'' then a else b)\<rparr>
                                ord of
                           (Some e, s2) \<Rightarrow> (Some e, s2)
                         | (None, s2) \<Rightarrow> process_order_list ev rest s2)))"
proof -
  from quoted_symbol_is_resolved [OF refresh quote] obtain c where
    c: "map_of (symbol_conid_map s0) (order_symbol ord) = Some c" by blast
  have "cycle ev s =
               (case r0 of Some e \<Rightarrow> (Some e, s0)
                | None \<Rightarrow>
                   (case process_order_list ev pre s0 of
                      (Some e, s1) \<Rightarrow> (Some e, s1)
                    | (None, s1) \<Rightarrow>
                        (case update_positions ev s1
                                \<lparr>pos_symbol = order_symbol ord,
                                 pos_quantity = order_quantity ord,
                                 pos_side = Some (order_side ord),
                                 pos_conid = c,
                                 pos_value = order_quantity ord
                                             * (if order_side ord = ''BUY'' then a else b)\<rparr>
                                ord of
                           (Some e, s2) \<Rightarrow> (Some e, s2)
                         | (None, s2) \<Rightarrow> process_order_list ev rest s2)))"
  proof (rule cycle_at_quoted_order [OF refresh split])
    fix s1 :: manager
    assume "symbol_price_map s1 = symbol_price_map s0"
      and "symbol_conid_map s1 = symbol_conid_map s0"
    with quote c show "process_order ev s1 ord =
        update_positions ev s1
          \<lparr>pos_symbol = order_symbol ord, pos_quantity = order_quantity ord,
           pos_side = Some (order_side ord), pos_conid = c,
           pos_value = order_quantity ord * (if order_side ord = ''BUY'' then a else b)\<rparr> ord"
      by (intro process_order_market [OF ty]) simp_all
  qed
  with c show ?thesis by blast
qed

text \<open>
  Claim C3, as amended. A LIMIT order of this cycle with side BUY or SELL, a limit price
  and a usable quote in the cycle's cache. If the quote refresh raises, or an order before
  it in the loop raises, the cycle ends with that exception and the order is not looked
  at. Otherwise a BUY is filled exactly when ask \<open>\<le>\<close> limit, at the ask, and a SELL exactly
  when bid \<open>\<ge>\<close> limit, at the bid; when it is not filled, the loop goes on from the very
  state it had reached before the order.
\<close>

theorem limit_order_fills_iff:
  assumes refresh: "get_market_data_snapshots ev (map_orders_to_conids (update_orders s)) = (r0, s0)"
    and split: "orders s0 = pre @ ord # rest"
    and ty: "order_type ord = ''LMT''"
    and sd: "order_side ord = ''BUY'' \<or> order_side ord = ''SELL''"
    and lp: "order_limit_price ord = Some l"
    and quote: "map_of (symbol_price_map s0) (order_symbol ord)
                  = Some \<lparr>bid = Numeric b, ask = Numeric a\<rparr>"
  shows "\<exists>c. map_of (symbol_conid_map s0) (order_symbol ord) = Some c
           \<and> cycle ev s =
               (case r0 of Some e \<Rightarrow> (Some e, s0)
                | None \<Rightarrow>
                   (case process_order_list ev pre s0 of
                      (Some e, s1) \<Rightarrow> (Some e, s1)
                    | (None, s1) \<Rightarrow>
                        (case (if order_side ord = ''BUY'' \<and> a \<le> l
                                  \<or> order_side ord = ''SELL'' \<and> l \<le> b
                               then update_positions ev s1
                                      \<lparr>pos_symbol = order_symbol ord,
                                       pos_quantity = order_quantity ord,
                                       pos_side = Some (order_side ord),
                                       pos_conid = c,
                                       pos_value = order_quantity ord
                                                   * (if order_side ord = ''BUY'' then a else b)\<rparr>
                                      ord
                               else (None, s1)) of
                           (Some e, s2) \<Rightarrow> (Some e, s2)
                         | (None, s2) \<Rightarrow> process_order_list ev rest s2)))"
proof -
  from quoted_symbol_is_resolved [OF refresh quote] obtain c where
    c: "map_of (symbol_conid_map s0) (order_symbol ord) = Some c" by blast
  have "cycle ev s =
               (case r0 of Some e \<Rightarrow> (Some e, s0)
                | None \<Rightarrow>
                   (case process_order_list ev pre s0 of
                      (Some e, s1) \<Rightarrow> (Some e, s1)
                    | (None, s1) \<Rightarrow>
                        (case (if order_side ord = ''BUY'' \<and> a \<le> l
                                  \<or> order_side ord = ''SELL'' \<and> l \<le> b
                               then update_positions ev s1
                                      \<lparr>pos_symbol = order_symbol ord,
                                       pos_quantity = order_quantity ord,
                                       pos_side = Some (order_side ord),
                                       pos_conid = c,
                                       pos_value = order_quantity ord
                                                   * (if order_side ord = ''BUY'' then a else b)\<rparr>
                                      ord
                               else (None, s1)) of
                           (Some e, s2) \<Rightarrow> (Some e, s2)
                         | (None, s2) \<Rightarrow> process_order_list ev rest s2)))"
  proof (rule cycle_at_quoted_order [OF refresh split])
    fix s1 :: manager
    assume "symbol_price_map s1 = symbol_price_map s0"
      and "symbol_conid_map s1 = symbol_conid_map s0"
    with quote c show "process_order ev s1 ord =
        (if order_side ord = ''BUY'' \<and> a \<le> l \<or> order_side ord = ''SELL'' \<and> l \<le> b
         then update_positions ev s1
          \<lparr>pos_symbol = order_symbol ord, pos_quantity = order_quantity ord,
           pos_side = Some (order_side ord), pos_conid = c,
           pos_value = order_quantity ord * (if order_side ord = ''BUY'' then a else b)\<rparr> ord
         else (None, s1))"
      by (intro process_order_limit [OF ty sd lp]) simp_all
  qed
  with c show ?thesis by blast
qed


subsection \<open>Orders only leave\<close>

text \<open>
  Processing an order never adds an order to the pending-order store or to the order
  list of a stored portfolio, and never removes a portfolio.
\<close>

lemma net_position_orders: "net_position f pf = Inr pf1 \<Longrightarrow> pf_orders pf1 = pf_orders pf"
proof -
  assume a: "net_position f pf = Inr pf1"
  show ?thesis
  proof (cases "find (\<lambda>p. pos_symbol p = pos_symbol f) (pf_positions pf)")
    case None
    with a have "pf1 = add_new_position f pf" by (simp add: net_position_def)
    then show ?thesis by (simp add: add_new_position_def)
  next
    case (Some e)
    show ?thesis
    proof (cases "pos_side e \<noteq> None")
      case False
      with a Some have "pf1 = add_new_position f pf" by (simp add: net_position_def)
      then show ?thesis by (simp add: add_new_position_def)
    next
      case True
      show ?thesis
      proof (cases "update_existing_position e f")
        case (Inl x)
        with a Some True show ?thesis by (simp add: net_position_def)
      next
        case (Inr u)
        with a Some True have "pf1 = pf\<lparr>pf_positions :=
                           map (\<lambda>p. if pos_symbol p = pos_symbol u
                                    then u else p) (pf_positions pf)\<rparr>"
          by (simp add: net_position_def)
        then show ?thesis by simp
      qed
    qed
  qed
qed

lemma update_positions_shrinks:
  assumes "update_positions ev s f ord = (r, s')"
  shows "order_id ` set (orders_collection s') \<subseteq> order_id ` set (orders_collection s)
         \<and> (\<forall>pid pf. map_of (portfolios_collection s) pid = Some pf \<longrightarrow>
               (\<exists>pf'. map_of (portfolios_collection s') pid = Some pf'
                      \<and> order_id ` set (pf_orders pf') \<subseteq> order_id ` set (pf_orders pf)))"
proof (cases "map_of (portfolios_collection s) (order_portfolio_id ord)")
  case None
  with assms show ?thesis by (simp add: update_positions_def)
next
  case (Some pf0)
  show ?thesis
  proof (cases "net_position f pf0")
    case (Inl e)
    with Some assms show ?thesis by (simp add: update_positions_def)
  next
    case (Inr pf1)
    note w = update_positions_written [OF Some Inr, of ev]
    have keep: "pf_orders pf1 = pf_orders pf0" by (rule net_position_orders [OF Inr])
    show ?thesis
    proof (cases "set_fails ev (order_portfolio_id ord)")
      case True
      with w assms have "s' = s\<lparr>orders_collection :=
                      filter (\<lambda>x. order_id x \<noteq> order_id ord) (orders_collection s)\<rparr>"
        by simp
      then show ?thesis by auto
    next
      case False
      with w assms have s': "s' = s\<lparr>orders_collection :=
                      filter (\<lambda>x. order_id x \<noteq> order_id ord) (orders_collection s),
                    portfolios_collection :=
                      AList.update (order_portfolio_id ord)
                        (pf1\<lparr>pf_orders :=
                               filter (\<lambda>x. order_id x \<noteq> order_id ord) (pf_orders pf1)\<rparr>)
                        (portfolios_collection s)\<rparr>"
        by simp
      have a: "order_id ` set (orders_collection s') \<subseteq> order_id ` set (orders_collection s)"
        unfolding s' by auto
      have b: "\<exists>pf'. map_of (portfolios_collection s') pid = Some pf'
                      \<and> order_id ` set (pf_orders pf') \<subseteq> order_id ` set (pf_orders pf)"
        if pid: "map_of (portfolios_collection s) pid = Some pf" for pid pf
      proof (cases "pid = order_portfolio_id ord")
        case True
        with pid Some have "pf = pf0" by simp
        with True show ?thesis unfolding s' by (auto simp: update_conv' keep)
      next
        case False
        with pid show ?thesis unfolding s' by (simp add: update_conv')
      qed
      from a b show ?thesis by blast
    qed
  qed
qed

lemma process_market_order_cases:
  assumes "process_market_order ev s ord a b = (r, s')"
  shows "s' = s \<or> (\<exists>f. update_positions ev s f ord = (r, s'))"
proof (cases "create_position s ord (if order_side ord = ''BUY'' then a else b)")
  case (Inl e)
  with assms show ?thesis by (simp add: process_market_order_def)
next
  case (Inr p)
  with assms have "update_positions ev s p ord = (r, s')"
    by (simp add: process_market_order_def)
  then show ?thesis by blast
qed

lemma process_limit_order_cases:
  assumes "process_limit_order ev s ord a b = (r, s')"
  shows "s' = s \<or> (\<exists>f. update_positions ev s f ord = (r, s'))"
proof (cases "process_limit_order ev s ord a b = process_market_order ev s ord a b")
  case True
  with assms show ?thesis using process_market_order_cases by simp
next
  case False
  then have "s' = s"
    using assms
    by (simp add: process_limit_order_def process_market_order_def split: if_splits)
  then show ?thesis by simp
qed

lemma process_order_cases:
  assumes "process_order ev s ord = (r, s')"
  shows "s' = s
         \<or> s' = s\<lparr>error_log := error_log s @ [InvalidOrderType (order_type ord)]\<rparr>
         \<or> (\<exists>f. update_positions ev s f ord = (r, s'))
         \<or> (\<exists>f. update_positions ev
                   (s\<lparr>error_log := error_log s @ [InvalidOrderType (order_type ord)]\<rparr>)
                   f ord = (r, s'))"
proof (cases "map_of (symbol_price_map s) (order_symbol ord)")
  case None
  with assms show ?thesis by (simp add: process_order_def)
next
  case (Some q)
  with assms have single: "process_order_single ev s ord = (r, s')"
    by (simp add: process_order_def)
  show ?thesis
  proof (cases "py_float (ask q)")
    case (Inl e)
    with single Some show ?thesis by (simp add: process_order_single_def)
  next
    case a: (Inr a)
    show ?thesis
    proof (cases "py_float (bid q)")
      case (Inl e)
      with single Some a show ?thesis by (simp add: process_order_single_def)
    next
      case b: (Inr b)
      consider (mkt) "order_type ord = ''MKT''" | (lmt) "order_type ord = ''LMT''"
        | (other) "order_type ord \<noteq> ''MKT''" "order_type ord \<noteq> ''LMT''"
        by blast
      then show ?thesis
      proof cases
        case mkt
        with single Some a b have "process_market_order ev s ord a b = (r, s')"
          by (simp add: process_order_single_def)
        from process_market_order_cases [OF this] show ?thesis
        proof
          assume "s' = s" then show ?thesis by (rule disjI1)
        next
          assume "\<exists>f. update_positions ev s f ord = (r, s')"
          then show ?thesis by (intro disjI2 disjI1)
        qed
      next
        case lmt
        with single Some a b have "process_limit_order ev s ord a b = (r, s')"
          by (simp add: process_order_single_def)
        from process_limit_order_cases [OF this] show ?thesis
        proof
          assume "s' = s" then show ?thesis by (rule disjI1)
        next
          assume "\<exists>f. update_positions ev s f ord = (r, s')"
          then show ?thesis by (intro disjI2 disjI1)
        qed
      next
        case other
        with single Some a b have "process_market_order ev
            (s\<lparr>error_log := error_log s @ [InvalidOrderType (order_type ord)]\<rparr>) ord a b = (r, s')"
          by (simp add: process_order_single_def)
        from process_market_order_cases [OF this] show ?thesis
        proof
          assume "s' = s\<lparr>error_log := error_log s @ [InvalidOrderType (order_type ord)]\<rparr>"
          then show ?thesis by (intro disjI2 disjI1)
        next
          assume "\<exists>f. update_positions ev
                   (s\<lparr>error_log := error_log s @ [InvalidOrderType (order_type ord)]\<rparr>)
                   f ord = (r, s')"
          then show ?thesis by (intro disjI2)
        qed
      qed
    qed
  qed
qed

lemma process_order_shrinks:
  assumes "process_order ev s ord = (r, s')"
  shows "order_id ` set (orders_collection s') \<subseteq> order_id ` set (orders_collection s)
         \<and> (\<forall>pid pf. map_of (portfolios_collection s) pid = Some pf \<longrightarrow>
               (\<exists>pf'. map_of (portfolios_collection s') pid = Some pf'
                      \<and> order_id ` set (pf_orders pf') \<subseteq> order_id ` set (pf_orders pf)))"
proof -
  let ?L = "s\<lparr>error_log := error_log s @ [InvalidOrderType (order_type ord)]\<rparr>"
  from process_order_cases [OF assms] show ?thesis
  proof (elim disjE exE)
    assume "s' = s"
    then show ?thesis by simp
  next
    assume "s' = ?L"
    then show ?thesis by simp
  next
    fix f assume "update_positions ev s f ord = (r, s')"
    then show ?thesis by (rule update_positions_shrinks)
  next
    fix f assume "update_positions ev ?L f ord = (r, s')"
    from update_positions_shrinks [OF this] show ?thesis by simp
  qed
qed

lemma process_order_list_shrinks:
  "process_order_list ev ords s = (r, s') \<Longrightarrow>
   order_id ` set (orders_collection s') \<subseteq> order_id ` set (orders_collection s)
   \<and> (\<forall>pid pf. map_of (portfolios_collection s) pid = Some pf \<longrightarrow>
         (\<exists>pf'. map_of (portfolios_collection s') pid = Some pf'
                \<and> order_id ` set (pf_orders pf') \<subseteq> order_id ` set (pf_orders pf)))"
proof (induction ords arbitrary: s)
  case Nil
  then show ?case by simp
next
  case (Cons x xs)
  obtain r1 s1 where st: "process_order ev s x = (r1, s1)" by (cases "process_order ev s x")
  note m = process_order_shrinks [OF st]
  show ?case
  proof (cases r1)
    case (Some e)
    with st Cons.prems have e: "s' = s1" by simp
    show ?thesis unfolding e by (rule m)
  next
    case None
    with st Cons.prems have "process_order_list ev xs s1 = (r, s')" by simp
    note ih = Cons.IH [OF this]
    note m1 = conjunct1 [OF m] and m2 = conjunct2 [OF m]
    note ih1 = conjunct1 [OF ih] and ih2 = conjunct2 [OF ih]
    have a: "order_id ` set (orders_collection s') \<subseteq> order_id ` set (orders_collection s)"
      by (rule subset_trans [OF ih1 m1])
    have b: "\<exists>pf'. map_of (portfolios_collection s') pid = Some pf'
                      \<and> order_id ` set (pf_orders pf') \<subseteq> order_id ` set (pf_orders pf)"
      if pid: "map_of (portfolios_collection s) pid = Some pf" for pid pf
    proof -
      from m2 [rule_format, OF pid] obtain pf1 where
        p1: "map_of (portfolios_collection s1) pid = Some pf1"
        and s1: "order_id ` set (pf_orders pf1) \<subseteq> order_id ` set (pf_orders pf)"
        by (elim exE conjE)
      from ih2 [rule_format, OF p1] obtain pf2 where
        p2: "map_of (portfolios_collection s') pid = Some pf2"
        and s2: "order_id ` set (pf_orders pf2) \<subseteq> order_id ` set (pf_orders pf1)"
        by (elim exE conjE)
      from subset_trans [OF s2 s1] p2 show ?thesis by (intro exI conjI)
    qed
    show ?thesis
    proof (intro conjI allI impI)
      show "order_id ` set (orders_collection s') \<subseteq> order_id ` set (orders_collection s)"
        by (rule a)
    next
      fix pid pf assume "map_of (portfolios_collection s) pid = Some pf"
      then show "\<exists>pf'. map_of (portfolios_collection s') pid = Some pf'
                      \<and> order_id ` set (pf_orders pf') \<subseteq> order_id ` set (pf_orders pf)"
        by (rule b)
    qed
  qed
qed

text \<open>
  Claim C6, as amended. The quote refresh, the orders before this one and this order are
  processed without an exception. If the order's symbol has no quote in the cycle's cache,
  or it is a LIMIT order whose limit the quote does not meet (BUY with ask above the
  limit, SELL with bid below it), processing it changes nothing: pending orders,
  portfolios and positions are after it what they were before it. In every other case the
  order is filled, and when the cycle ends, however it ends, no order with its id is in
  the pending-order store nor in the order list of its stored portfolio.
\<close>

theorem filled_order_retired_else_untouched:
  assumes refresh: "get_market_data_snapshots ev (map_orders_to_conids (update_orders s)) = (None, s0)"
    and split: "orders s0 = pre @ ord # rest"
    and before: "process_order_list ev pre s0 = (None, s1)"
    and step: "process_order ev s1 ord = (None, s2)"
    and after: "process_order_list ev rest s2 = (r, s3)"
  shows "cycle ev s = (r, s3)
         \<and> (if map_of (symbol_price_map s0) (order_symbol ord) = None
                \<or> (order_type ord = ''LMT''
                    \<and> (\<exists>a b l. map_of (symbol_price_map s0) (order_symbol ord)
                                   = Some \<lparr>bid = Numeric b, ask = Numeric a\<rparr>
                               \<and> order_limit_price ord = Some l
                               \<and> (order_side ord = ''BUY'' \<and> l < a
                                   \<or> order_side ord = ''SELL'' \<and> b < l)))
             then s2 = s1
             else order_id ord \<notin> order_id ` set (orders_collection s3)
                  \<and> (\<exists>pf'. map_of (portfolios_collection s3) (order_portfolio_id ord) = Some pf'
                            \<and> order_id ord \<notin> order_id ` set (pf_orders pf')))"
proof -
  have c: "cycle ev s = (r, s3)"
    using cycle_at_order [OF refresh split] before step after by simp
  from process_order_list_maps [OF before]
  have cache: "symbol_price_map s1 = symbol_price_map s0" by simp
  note one = process_order_retires_or_untouched [OF step, unfolded cache]
  note sh = process_order_list_shrinks [OF after]
  have else_branch: "\<And>C X Y. (if C then X else Y) \<Longrightarrow> \<not> C \<Longrightarrow> Y" by simp
  have then_branch: "\<And>C X Y. (if C then X else Y) \<Longrightarrow> C \<Longrightarrow> X" by simp
  show ?thesis
  proof (cases "map_of (symbol_price_map s0) (order_symbol ord) = None
                \<or> (order_type ord = ''LMT''
                    \<and> (\<exists>a b l. map_of (symbol_price_map s0) (order_symbol ord)
                                   = Some \<lparr>bid = Numeric b, ask = Numeric a\<rparr>
                               \<and> order_limit_price ord = Some l
                               \<and> (order_side ord = ''BUY'' \<and> l < a
                                   \<or> order_side ord = ''SELL'' \<and> b < l)))")
    case True
    from then_branch [OF one True] have "s2 = s1" .
    with c show ?thesis using True by (simp only: if_True simp_thms)
  next
    case False
    from else_branch [OF one False]
    have gone: "order_id ord \<notin> order_id ` set (orders_collection s2)"
      and pf: "\<exists>pf'. map_of (portfolios_collection s2) (order_portfolio_id ord) = Some pf'
                        \<and> order_id ord \<notin> order_id ` set (pf_orders pf')"
      by blast+
    from gone sh have g3: "order_id ord \<notin> order_id ` set (orders_collection s3)" by blast
    from pf obtain pf2 where p2: "map_of (portfolios_collection s2) (order_portfolio_id ord) = Some pf2"
      and n2: "order_id ord \<notin> order_id ` set (pf_orders pf2)" by blast
    from sh p2 obtain pf3 where p3: "map_of (portfolios_collection s3) (order_portfolio_id ord) = Some pf3"
      and s3: "order_id ` set (pf_orders pf3) \<subseteq> order_id ` set (pf_orders pf2)" by blast
    from n2 s3 have "order_id ord \<notin> order_id ` set (pf_orders pf3)" by blast
    with p3 have "\<exists>pf'. map_of (portfolios_collection s3) (order_portfolio_id ord) = Some pf'
                        \<and> order_id ord \<notin> order_id ` set (pf_orders pf')" by blast
    with g3 c show ?thesis using False by (simp only: if_False simp_thms)
  qed
qed

section \<open>Worked instances\<close>

text \<open>
  Claim C4 as it is written fails. The store refuses the writes of portfolio Q. The order
  of Q comes first and raises; the loop ends, and the MARKET order of P behind it, whose
  symbol has a usable quote in this cycle's cache, is still pending, with no position in P.
\<close>

theorem later_market_order_not_filled:
  "cycle (ex_env_q_fails (19/2) (191/20))
     (ex_manager_pq [ex_order_q, ex_order ''o2'' ''MKT'' ''BUY'' 10 None])
   = (Some WriteError,
      (ex_manager_pq [ex_order_q, ex_order ''o2'' ''MKT'' ''BUY'' 10 None])
        \<lparr>orders_collection := [ex_order ''o2'' ''MKT'' ''BUY'' 10 None],
         orders := [ex_order_q, ex_order ''o2'' ''MKT'' ''BUY'' 10 None],
         symbol_conid_map := [(''ABC'', 265598)],
         symbol_price_map := [(''ABC'', \<lparr>bid = Numeric (19/2), ask = Numeric (191/20)\<rparr>)]\<rparr>)
   \<and> order_type (ex_order ''o2'' ''MKT'' ''BUY'' 10 None) = ''MKT''
   \<and> map_of (symbol_price_map (snd (cycle (ex_env_q_fails (19/2) (191/20))
          (ex_manager_pq [ex_order_q, ex_order ''o2'' ''MKT'' ''BUY'' 10 None]))))
        (order_symbol (ex_order ''o2'' ''MKT'' ''BUY'' 10 None))
     = Some \<lparr>bid = Numeric (19/2), ask = Numeric (191/20)\<rparr>
   \<and> map_of (portfolios_collection (snd (cycle (ex_env_q_fails (19/2) (191/20))
          (ex_manager_pq [ex_order_q, ex_order ''o2'' ''MKT'' ''BUY'' 10 None])))) ''P''
     = Some (ex_portfolio [ex_order ''o2'' ''MKT'' ''BUY'' 10 None] [])"
  by (simp add: ex_defs engine_defs)

text \<open>
  Claim C3 as it is written fails in the same way: a LIMIT BUY at 9.60 with the ask at 9.55
  is not filled in a cycle that an earlier order ends.
\<close>

theorem later_limit_order_not_filled:
  "cycle (ex_env_q_fails (19/2) (191/20))
     (ex_manager_pq [ex_order_q, ex_order ''o2'' ''LMT'' ''BUY'' 10 (Some (48/5))])
   = (Some WriteError,
      (ex_manager_pq [ex_order_q, ex_order ''o2'' ''LMT'' ''BUY'' 10 (Some (48/5))])
        \<lparr>orders_collection := [ex_order ''o2'' ''LMT'' ''BUY'' 10 (Some (48/5))],
         orders := [ex_order_q, ex_order ''o2'' ''LMT'' ''BUY'' 10 (Some (48/5))],
         symbol_conid_map := [(''ABC'', 265598)],
         symbol_price_map := [(''ABC'', \<lparr>bid = Numeric (19/2), ask = Numeric (191/20)\<rparr>)]\<rparr>)
   \<and> order_type (ex_order ''o2'' ''LMT'' ''BUY'' 10 (Some (48/5))) = ''LMT''
   \<and> order_side (ex_order ''o2'' ''LMT'' ''BUY'' 10 (Some (48/5))) = ''BUY''
   \<and> (191/20 :: real) \<le> 48/5
   \<and> map_of (symbol_price_map (snd (cycle (ex_env_q_fails (19/2) (191/20))
          (ex_manager_pq [ex_order_q, ex_order ''o2'' ''LMT'' ''BUY'' 10 (Some (48/5))]))))
        (order_symbol (ex_order ''o2'' ''LMT'' ''BUY'' 10 (Some (48/5))))
     = Some \<lparr>bid = Numeric (19/2), ask = Numeric (191/20)\<rparr>
   \<and> map_of (portfolios_collection (snd (cycle (ex_env_q_fails (19/2) (191/20))
          (ex_manager_pq [ex_order_q, ex_order ''o2'' ''LMT'' ''BUY'' 10 (Some (48/5))])))) ''P''
     = Some (ex_portfolio [ex_order ''o2'' ''LMT'' ''BUY'' 10 (Some (48/5))] [])"
  by (simp add: ex_defs engine_defs)

text \<open>
  Claim C6 as it is written fails: the write of Q is refused while its order is processed.
  The order is gone from the pending-order store, and Q still lists it and has no
  position, so it is neither absent from both places nor present and unchanged in both.
\<close>

theorem refused_write_half_retires_order:
  "cycle (ex_env_q_fails (19/2) (191/20)) (ex_manager_pq [ex_order_q])
   = (Some WriteError,
      (ex_manager_pq [ex_order_q])
        \<lparr>orders_collection := [],
         orders := [ex_order_q],
         symbol_conid_map := [(''ABC'', 265598)],
         symbol_price_map := [(''ABC'', \<lparr>bid = Numeric (19/2), ask = Numeric (191/20)\<rparr>)]\<rparr>)
   \<and> ex_order_q \<in> set (orders_collection (ex_manager_pq [ex_order_q]))
   \<and> order_id ex_order_q
       \<notin> order_id ` set (orders_collection (snd (cycle (ex_env_q_fails (19/2) (191/20))
                                (ex_manager_pq [ex_order_q]))))
   \<and> map_of (portfolios_collection (snd (cycle (ex_env_q_fails (19/2) (191/20))
                                (ex_manager_pq [ex_order_q])))) (order_portfolio_id ex_order_q)
     = Some \<lparr>pf_id = ''Q'', pf_orders = [ex_order_q], pf_positions = []\<rparr>"
  by (simp add: ex_defs engine_defs)

text \<open>
  A cycle with two orders for ABC, quote 9.50 / 9.55: a LIMIT BUY at 9 that is not filled,
  then the MARKET BUY of 10 of the specification's first example. The new position is BUY,
  10, value 95.50; the MARKET order is gone and the LIMIT order stays.
\<close>

theorem market_order_fills_witness:
  "cycle (ex_env (19/2) (191/20))
     (ex_manager [ex_order ''o0'' ''LMT'' ''BUY'' 5 (Some 9), ex_order ''o1'' ''MKT'' ''BUY'' 10 None] [])
   = (None,
      (ex_ready [ex_order ''o0'' ''LMT'' ''BUY'' 5 (Some 9)]
                [ex_position (Some ''BUY'') 10 (191/2)] (19/2) (191/20))
        \<lparr>orders := [ex_order ''o0'' ''LMT'' ''BUY'' 5 (Some 9),
                    ex_order ''o1'' ''MKT'' ''BUY'' 10 None]\<rparr>)"
proof -
  let ?ev = "ex_env (19/2) (191/20)"
  let ?oa = "ex_order ''o0'' ''LMT'' ''BUY'' 5 (Some 9)"
  let ?ob = "ex_order ''o1'' ''MKT'' ''BUY'' 10 None"
  let ?st = "ex_manager [?oa, ?ob] []"
  let ?sr = "ex_ready [?oa, ?ob] [] (19/2) (191/20)"
  have refresh: "get_market_data_snapshots ?ev (map_orders_to_conids (update_orders ?st)) = (None, ?sr)"
    by (simp add: ex_defs engine_defs)
  have split: "orders ?sr = [?oa] @ ?ob # []" by (simp add: ex_defs)
  have ty: "order_type ?ob = ''MKT''" by (simp add: ex_defs)
  have quote: "map_of (symbol_price_map ?sr) (order_symbol ?ob)
                 = Some \<lparr>bid = Numeric (19/2), ask = Numeric (191/20)\<rparr>"
    by (simp add: ex_defs)
  from market_order_fills [OF refresh split ty quote] obtain c where
    c: "map_of (symbol_conid_map ?sr) (order_symbol ?ob) = Some c"
    and cy: "cycle ?ev ?st =
       (case None of Some e \<Rightarrow> (Some e, ?sr)
        | None \<Rightarrow>
           (case process_order_list ?ev [?oa] ?sr of
              (Some e, s1) \<Rightarrow> (Some e, s1)
            | (None, s1) \<Rightarrow>
                (case update_positions ?ev s1
                        \<lparr>pos_symbol = order_symbol ?ob,
                         pos_quantity = order_quantity ?ob,
                         pos_side = Some (order_side ?ob),
                         pos_conid = c,
                         pos_value = order_quantity ?ob
                                     * (if order_side ?ob = ''BUY'' then 191/20 else 19/2)\<rparr>
                        ?ob of
                   (Some e, s2) \<Rightarrow> (Some e, s2)
                 | (None, s2) \<Rightarrow> process_order_list ?ev [] s2)))"
    by blast
  from c have "c = 265598" by (simp add: ex_defs)
  with cy show ?thesis by (simp add: ex_defs engine_defs)
qed

text \<open>The same cycle with a LIMIT BUY at 9.60 in second place: it is filled at 9.55.\<close>

theorem limit_order_fills_iff_witness:
  "cycle (ex_env (19/2) (191/20))
     (ex_manager [ex_order ''o0'' ''LMT'' ''BUY'' 5 (Some 9),
                  ex_order ''o1'' ''LMT'' ''BUY'' 10 (Some (48/5))] [])
   = (None,
      (ex_ready [ex_order ''o0'' ''LMT'' ''BUY'' 5 (Some 9)]
                [ex_position (Some ''BUY'') 10 (191/2)] (19/2) (191/20))
        \<lparr>orders := [ex_order ''o0'' ''LMT'' ''BUY'' 5 (Some 9),
                    ex_order ''o1'' ''LMT'' ''BUY'' 10 (Some (48/5))]\<rparr>)"
proof -
  let ?ev = "ex_env (19/2) (191/20)"
  let ?oa = "ex_order ''o0'' ''LMT'' ''BUY'' 5 (Some 9)"
  let ?ob = "ex_order ''o1'' ''LMT'' ''BUY'' 10 (Some (48/5))"
  let ?st = "ex_manager [?oa, ?ob] []"
  let ?sr = "ex_ready [?oa, ?ob] [] (19/2) (191/20)"
  have refresh: "get_market_data_snapshots ?ev (map_orders_to_conids (update_orders ?st)) = (None, ?sr)"
    by (simp add: ex_defs engine_defs)
  have split: "orders ?sr = [?oa] @ ?ob # []" by (simp add: ex_defs)
  have ty: "order_type ?ob = ''LMT''" by (simp add: ex_defs)
  have sd: "order_side ?ob = ''BUY'' \<or> order_side ?ob = ''SELL''" by (simp add: ex_defs)
  have lp: "order_limit_price ?ob = Some (48/5)" by (simp add: ex_defs)
  have quote: "map_of (symbol_price_map ?sr) (order_symbol ?ob)
                 = Some \<lparr>bid = Numeric (19/2), ask = Numeric (191/20)\<rparr>"
    by (simp add: ex_defs)
  from limit_order_fills_iff [OF refresh split ty sd lp quote] obtain c where
    c: "map_of (symbol_conid_map ?sr) (order_symbol ?ob) = Some c"
    and cy: "cycle ?ev ?st =
       (case None of Some e \<Rightarrow> (Some e, ?sr)
        | None \<Rightarrow>
           (case process_order_list ?ev [?oa] ?sr of
              (Some e, s1) \<Rightarrow> (Some e, s1)
            | (None, s1) \<Rightarrow>
                (case (if order_side ?ob = ''BUY'' \<and> 191/20 \<le> (48/5 :: real)
                          \<or> order_side ?ob = ''SELL'' \<and> (48/5 :: real) \<le> 19/2
                       then update_positions ?ev s1
                        \<lparr>pos_symbol = order_symbol ?ob,
                         pos_quantity = order_quantity ?ob,
                         pos_side = Some (order_side ?ob),
                         pos_conid = c,
                         pos_value = order_quantity ?ob
                                     * (if order_side ?ob = ''BUY'' then 191/20 else 19/2)\<rparr>
                        ?ob
                       else (None, s1)) of
                   (Some e, s2) \<Rightarrow> (Some e, s2)
                 | (None, s2) \<Rightarrow> process_order_list ?ev [] s2)))"
    by blast
  from c have "c = 265598" by (simp add: ex_defs)
  with cy show ?thesis by (simp add: ex_defs engine_defs)
qed

text \<open>
  A long position of 10; a LIMIT SELL at 10 with the bid at 9.50 changes nothing, and the
  MARKET SELL of 4 behind it is filled and retired.
\<close>

theorem filled_order_retired_else_untouched_witness:
  "cycle (ex_env (19/2) (191/20))
     (ex_manager [ex_order ''o0'' ''LMT'' ''SELL'' 4 (Some 10), ex_order ''o1'' ''MKT'' ''SELL'' 4 None]
                 [ex_position (Some ''BUY'') 10 (191/2)])
   = (None,
      (ex_ready [ex_order ''o0'' ''LMT'' ''SELL'' 4 (Some 10)]
                [ex_position (Some ''BUY'') 6 (115/2)] (19/2) (191/20))
        \<lparr>orders := [ex_order ''o0'' ''LMT'' ''SELL'' 4 (Some 10),
                    ex_order ''o1'' ''MKT'' ''SELL'' 4 None]\<rparr>)
   \<and> order_id (ex_order ''o1'' ''MKT'' ''SELL'' 4 None)
       \<notin> order_id ` set (orders_collection
            ((ex_ready [ex_order ''o0'' ''LMT'' ''SELL'' 4 (Some 10)]
                [ex_position (Some ''BUY'') 6 (115/2)] (19/2) (191/20))
              \<lparr>orders := [ex_order ''o0'' ''LMT'' ''SELL'' 4 (Some 10),
                          ex_order ''o1'' ''MKT'' ''SELL'' 4 None]\<rparr>))"
proof -
  let ?ev = "ex_env (19/2) (191/20)"
  let ?oa = "ex_order ''o0'' ''LMT'' ''SELL'' 4 (Some 10)"
  let ?ob = "ex_order ''o1'' ''MKT'' ''SELL'' 4 None"
  let ?st = "ex_manager [?oa, ?ob] [ex_position (Some ''BUY'') 10 (191/2)]"
  let ?sr = "ex_ready [?oa, ?ob] [ex_position (Some ''BUY'') 10 (191/2)] (19/2) (191/20)"
  let ?sf = "(ex_ready [?oa] [ex_position (Some ''BUY'') 6 (115/2)] (19/2) (191/20))
               \<lparr>orders := [?oa, ?ob]\<rparr>"
  have refresh: "get_market_data_snapshots ?ev (map_orders_to_conids (update_orders ?st)) = (None, ?sr)"
    by (simp add: ex_defs engine_defs)
  have split: "orders ?sr = [?oa] @ ?ob # []" by (simp add: ex_defs)
  have before: "process_order_list ?ev [?oa] ?sr = (None, ?sr)"
    by (simp add: ex_defs engine_defs)
  have step: "process_order ?ev ?sr ?ob = (None, ?sf)"
    by (simp add: ex_defs engine_defs)
  have after: "process_order_list ?ev [] ?sf = (None, ?sf)" by simp
  have fill: "\<not> (map_of (symbol_price_map ?sr) (order_symbol ?ob) = None
            \<or> (order_type ?ob = ''LMT''
                \<and> (\<exists>a b l. map_of (symbol_price_map ?sr) (order_symbol ?ob)
                               = Some \<lparr>bid = Numeric b, ask = Numeric a\<rparr>
                           \<and> order_limit_price ?ob = Some l
                           \<and> (order_side ?ob = ''BUY'' \<and> l < a
                               \<or> order_side ?ob = ''SELL'' \<and> b < l))))"
    by (simp add: ex_defs)
  have else_branch: "\<And>C X Y. (if C then X else Y) \<Longrightarrow> \<not> C \<Longrightarrow> Y" by simp
  note t = filled_order_retired_else_untouched [OF refresh split before step after]
  from t have c: "cycle ?ev ?st = (None, ?sf)" by (rule conjunct1)
  from else_branch [OF conjunct2 [OF t] fill]
  have gone: "order_id ?ob \<notin> order_id ` set (orders_collection ?sf)"
    by (rule conjunct1)
  from c gone show ?thesis by (intro conjI)
qed

text \<open>The same fill against a store that refuses the write, and against one that takes it.\<close>

theorem ledger_deletes_order_before_write_witness:
  "update_positions (ex_env_write_fails (19/2) (191/20))
     (ex_ready [ex_order ''o1'' ''MKT'' ''BUY'' 10 None] [] (19/2) (191/20))
     (ex_position (Some ''BUY'') 10 (191/2)) (ex_order ''o1'' ''MKT'' ''BUY'' 10 None)
   = (Some WriteError,
      (ex_ready [ex_order ''o1'' ''MKT'' ''BUY'' 10 None] [] (19/2) (191/20))
        \<lparr>orders_collection := []\<rparr>)
   \<and> update_positions (ex_env (19/2) (191/20))
     (ex_ready [ex_order ''o1'' ''MKT'' ''BUY'' 10 None] [] (19/2) (191/20))
     (ex_position (Some ''BUY'') 10 (191/2)) (ex_order ''o1'' ''MKT'' ''BUY'' 10 None)
   = (None,
      (ex_ready [] [ex_position (Some ''BUY'') 10 (191/2)] (19/2) (191/20))
        \<lparr>orders := [ex_order ''o1'' ''MKT'' ''BUY'' 10 None]\<rparr>)"
proof -
  let ?o = "ex_order ''o1'' ''MKT'' ''BUY'' 10 None"
  let ?s = "ex_ready [?o] [] (19/2) (191/20)"
  let ?f = "ex_position (Some ''BUY'') 10 (191/2)"
  have pf: "map_of (portfolios_collection ?s) (order_portfolio_id ?o) = Some (ex_portfolio [?o] [])"
    by (simp add: ex_defs)
  have net: "net_position ?f (ex_portfolio [?o] []) = Inr (ex_portfolio [?o] [?f])"
    by (simp add: ex_defs engine_defs)
  from ledger_deletes_order_before_write [OF pf net, of "ex_env_write_fails (19/2) (191/20)"]
  obtain s1 where
    r1: "update_positions (ex_env_write_fails (19/2) (191/20)) ?s ?f ?o = (Some WriteError, s1)"
    by (auto simp: ex_defs)
  from ledger_deletes_order_before_write [OF pf net, of "ex_env (19/2) (191/20)"]
  obtain s2 where
    r2: "update_positions (ex_env (19/2) (191/20)) ?s ?f ?o = (None, s2)"
    by (auto simp: ex_defs)
  have "s1 = ?s\<lparr>orders_collection := []\<rparr>"
    using r1 by (simp add: ex_defs engine_defs)
  moreover have "s2 = (ex_ready [] [?f] (19/2) (191/20))\<lparr>orders := [?o]\<rparr>"
    using r2 by (simp add: ex_defs engine_defs)
  ultimately show ?thesis using r1 r2 by simp
qed

text \<open>An unreachable quote source, and a snapshot without an ask.\<close>

theorem quote_failure_defers_orders_witness:
  "cycle ex_env_no_quotes (ex_manager [ex_order ''o1'' ''MKT'' ''BUY'' 10 None] [])
   = (None, (ex_manager [ex_order ''o1'' ''MKT'' ''BUY'' 10 None] [])
              \<lparr>orders := [ex_order ''o1'' ''MKT'' ''BUY'' 10 None],
               symbol_conid_map := [(''ABC'', 265598)],
               error_log := [SnapshotFailure TransportError]\<rparr>)
   \<and> process_order ex_env_no_quotes
       ((ex_manager [ex_order ''o1'' ''MKT'' ''BUY'' 10 None] [])
              \<lparr>orders := [ex_order ''o1'' ''MKT'' ''BUY'' 10 None],
               symbol_conid_map := [(''ABC'', 265598)],
               error_log := [SnapshotFailure TransportError]\<rparr>)
       (ex_order ''o1'' ''MKT'' ''BUY'' 10 None)
     = (None, (ex_manager [ex_order ''o1'' ''MKT'' ''BUY'' 10 None] [])
              \<lparr>orders := [ex_order ''o1'' ''MKT'' ''BUY'' 10 None],
               symbol_conid_map := [(''ABC'', 265598)],
               error_log := [SnapshotFailure TransportError]\<rparr>)
   \<and> store_snapshots [(''ABC'', 265598)]
        [ex_snapshot 265598 (Some (Numeric (19/2))) None] []
     = (None, [])"
proof -
  let ?o = "ex_order ''o1'' ''MKT'' ''BUY'' 10 None"
  let ?s = "ex_manager [?o] []"
  let ?cm = "[(''ABC'', 265598 :: int)]"
  let ?snap = "ex_snapshot 265598 (Some (Numeric (19/2))) None"
  have s1: "map_orders_to_conids (update_orders ?s)
              = ?s\<lparr>orders := [?o], symbol_conid_map := ?cm\<rparr>"
    by (simp add: ex_defs engine_defs)
  have conids: "symbol_conid_map (map_orders_to_conids (update_orders ?s)) \<noteq> []"
    by (simp add: s1)
  have fails: "market_data_snapshot ex_env_no_quotes
                 (map snd (symbol_conid_map (map_orders_to_conids (update_orders ?s)))) FIELDS
               = Inl TransportError"
    by (simp add: ex_defs)
  have known: "index (map snd ?cm) (snap_conidEx ?snap) = Inr 0"
    by (simp add: ex_defs)
  have missing: "snap_84 ?snap = None \<or> snap_86 ?snap = None"
    by (simp add: ex_defs)
  let ?t = "?s\<lparr>orders := [?o], symbol_conid_map := ?cm,
                 error_log := [SnapshotFailure TransportError]\<rparr>"
  have unquoted: "map_of (symbol_price_map ?t) (order_symbol ?o) = None"
    by (simp add: ex_defs)
  from quote_failure_defers_orders
         [OF conids fails known missing unquoted, of ex_env_no_quotes "[]" "[]"]
  have c: "cycle ex_env_no_quotes ?s =
           (None, (map_orders_to_conids (update_orders ?s))
                    \<lparr>error_log := error_log ?s @ [SnapshotFailure TransportError]\<rparr>)"
    and p: "process_order ex_env_no_quotes ?t ?o = (None, ?t)"
    and d: "store_snapshots ?cm [?snap] [] = store_snapshots ?cm [] []"
    by blast+
  from c have "cycle ex_env_no_quotes ?s = (None, ?t)"
    unfolding s1 by (simp add: ex_defs)
  with p d show ?thesis by simp
qed

text \<open>
  The quote source answers for instrument 8314 while the map holds 265598 only:
  \<open>run\<close> ends with \<open>ValueError\<close> in its first iteration.
\<close>

theorem unknown_conid_stops_run_witness:
  "run [Tick ex_env_unknown_conid] (ex_manager [ex_order ''o1'' ''MKT'' ''BUY'' 10 None] [])
   = Crashed ValueError
       ((ex_manager [ex_order ''o1'' ''MKT'' ''BUY'' 10 None] [])
          \<lparr>orders := [ex_order ''o1'' ''MKT'' ''BUY'' 10 None],
           symbol_conid_map := [(''ABC'', 265598)]\<rparr>)"
proof -
  let ?o = "ex_order ''o1'' ''MKT'' ''BUY'' 10 None"
  let ?s = "ex_manager [?o] []"
  let ?snap = "ex_snapshot 8314 (Some (Numeric 100)) (Some (Numeric 101))"
  have s1: "map_orders_to_conids (update_orders ?s)
              = ?s\<lparr>orders := [?o], symbol_conid_map := [(''ABC'', 265598)]\<rparr>"
    by (simp add: ex_defs engine_defs)
  have conids: "symbol_conid_map (map_orders_to_conids (update_orders ?s)) \<noteq> []"
    by (simp add: s1)
  have reply: "market_data_snapshot ex_env_unknown_conid
                 (map snd (symbol_conid_map (map_orders_to_conids (update_orders ?s)))) FIELDS
               = Inr [?snap]"
    by (simp add: ex_defs)
  have snap: "?snap \<in> set [?snap]" by simp
  have unknown: "snap_conidEx ?snap
                   \<notin> snd ` set (symbol_conid_map (map_orders_to_conids (update_orders ?s)))"
    by (simp add: s1) (simp add: ex_defs)
  from unknown_conid_stops_run [OF conids reply snap unknown, of "[]" 0]
  obtain s' where g: "get_market_data_snapshots ex_env_unknown_conid
                        (map_orders_to_conids (update_orders ?s)) = (Some ValueError, s')"
    and r: "run_loop [Tick ex_env_unknown_conid] 0 ?s = Crashed ValueError s'"
    by blast
  from g have "s' = ?s\<lparr>orders := [?o], symbol_conid_map := [(''ABC'', 265598)]\<rparr>"
    unfolding s1 by (simp add: ex_defs engine_defs)
  with r show ?thesis by (simp add: run_def)
qed

end
